theory Spec2Isabelle
  imports Complex_Main "HOL-Library.AList" "HOL-Library.Char_ord" "HOL-Library.List_Lexorder"
begin

section \<open>JavaScript values\<close>

text \<open>
  The program is JavaScript. A number is an IEEE 754 double: a finite double is a dyadic
  rational and is modelled by its exact value, so that comparisons of finite numbers are
  comparisons of rationals. The two zeros are one value here (the program never
  distinguishes them). A string is a list of code units; the model covers the code units
  below 256.
\<close>

datatype jsnum = Finite rat | NaN | PosInf | NegInf

datatype jsval =
    JUndefined
  | JNull
  | JBool bool
  | JNum jsnum
  | JStr string
  | JArr "jsval list"
  | JObj "(string \<times> jsval) list"

datatype error =
    HttpError nat string
  | NetworkError string
  | BodyError string
  | TypeError

subsection \<open>Rounding to a double\<close>

text \<open>
  \<open>bitlen n\<close> is the number of binary digits of \<open>n\<close>. \<open>round_double q\<close> is the
  double nearest to the rational \<open>q\<close> (ties to the even significand, 53 bits of
  precision, exponents from -1022 to 1023), which is what a decimal literal of the source
  and the conversion of a string denote. With \<open>e\<close> the binary exponent of \<open>q\<close> (at least
  -1022, where the subnormal numbers begin), the significand \<open>n\<close> is \<open>q\<close> in units of
  \<open>2 ^ (e - 52)\<close>, rounded; the result overflows to an infinity when its exponent
  exceeds 1023, that is when \<open>n * 2 ^ (e - 52)\<close> reaches \<open>2 ^ 1024\<close>.
\<close>

function bitlen :: "int \<Rightarrow> nat" where
  "bitlen n = (if n \<le> 0 then 0 else Suc (bitlen (n div 2)))"
  by pat_completeness auto
termination
  by (relation "measure nat") auto

definition pow2 :: "int \<Rightarrow> rat" where
  "pow2 e = (if 0 \<le> e then 2 ^ nat e else 1 / 2 ^ nat (- e))"

definition binary_exponent :: "rat \<Rightarrow> int" where
  "binary_exponent q =
     (let (a, b) = quotient_of \<bar>q\<bar>;
          e = int (bitlen a) - int (bitlen b)
      in if pow2 e \<le> \<bar>q\<bar> then e else e - 1)"

definition round_half_even :: "rat \<Rightarrow> int" where
  "round_half_even x =
     (let f = \<lfloor>x\<rfloor>; r = x - of_int f
      in if r < 1 / 2 then f
         else if 1 / 2 < r then f + 1
         else if even f then f else f + 1)"

definition round_double :: "rat \<Rightarrow> jsnum" where
  "round_double q =
     (if q = 0 then Finite 0
      else let e = max (binary_exponent q) (- 1022);
               n = round_half_even (q / pow2 (e - 52))
           in if 1023 < e \<or> (e = 1023 \<and> 2 ^ 53 \<le> \<bar>n\<bar>)
              then (if 0 < q then PosInf else NegInf)
              else Finite (of_int n * pow2 (e - 52)))"

text \<open>A decimal literal of the source, as the finite number it denotes.\<close>

definition lit :: "rat \<Rightarrow> rat" where
  "lit q = (case round_double q of Finite v \<Rightarrow> v | _ \<Rightarrow> q)"

subsection \<open>Strings\<close>

text \<open>\<open>String.prototype.trim\<close>: the white space and line terminators below 256.\<close>

definition is_ws :: "char \<Rightarrow> bool" where
  "is_ws c = (c \<in> {CHR 0x09, CHR 0x0A, CHR 0x0B, CHR 0x0C, CHR 0x0D, CHR 0x20, CHR 0xA0})"

definition trim :: "string \<Rightarrow> string" where
  "trim s = rev (dropWhile is_ws (rev (dropWhile is_ws s)))"

text \<open>\<open>s.split(c)\<close> for a one-character separator: one more part than separators.\<close>

fun split_on :: "char \<Rightarrow> string \<Rightarrow> string \<Rightarrow> string list" where
  "split_on c cur [] = [cur]"
| "split_on c cur (x # xs) =
     (if x = c then cur # split_on c [] xs else split_on c (cur @ [x]) xs)"

definition split_str :: "char \<Rightarrow> string \<Rightarrow> string list" where
  "split_str c s = split_on c [] s"

subsection \<open>\<open>Number(string)\<close>\<close>

text \<open>
  The conversion of a string to a number (ECMAScript \<open>StringToNumber\<close>): white space
  is trimmed; the empty string is 0; a literal is \<open>0x\<close>, \<open>0o\<close> or \<open>0b\<close> digits
  without sign, or an optionally signed \<open>Infinity\<close> or decimal literal (digits, an
  optional fraction, an optional exponent); anything else is \<open>NaN\<close>.
\<close>

definition digit_of :: "char \<Rightarrow> nat option" where
  "digit_of c =
     (let n = (of_char c :: nat)
      in if 48 \<le> n \<and> n \<le> 57 then Some (n - 48)
         else if 97 \<le> n \<and> n \<le> 102 then Some (n - 87)
         else if 65 \<le> n \<and> n \<le> 70 then Some (n - 55)
         else None)"

definition is_digit :: "nat \<Rightarrow> char \<Rightarrow> bool" where
  "is_digit base c = (case digit_of c of Some d \<Rightarrow> d < base | None \<Rightarrow> False)"

definition digits_value :: "nat \<Rightarrow> string \<Rightarrow> int" where
  "digits_value base s =
     foldl (\<lambda>a c. int base * a + (case digit_of c of Some d \<Rightarrow> int d | None \<Rightarrow> 0)) 0 s"

definition pow10 :: "int \<Rightarrow> rat" where
  "pow10 e = (if 0 \<le> e then 10 ^ nat e else 1 / 10 ^ nat (- e))"

definition parse_exponent :: "string \<Rightarrow> int option" where
  "parse_exponent s =
     (case s of
        [] \<Rightarrow> Some 0
      | c # r \<Rightarrow>
          if c = CHR ''e'' \<or> c = CHR ''E'' then
            (let (neg, ds) = (case r of
                                [] \<Rightarrow> (False, r)
                              | d # r' \<Rightarrow> if d = CHR ''-'' then (True, r')
                                         else if d = CHR ''+'' then (False, r')
                                         else (False, r))
             in if ds \<noteq> [] \<and> list_all (is_digit 10) ds
                then Some (if neg then - digits_value 10 ds else digits_value 10 ds)
                else None)
          else None)"

definition parse_decimal :: "string \<Rightarrow> rat option" where
  "parse_decimal s =
     (let ip = takeWhile (is_digit 10) s;
          r1 = dropWhile (is_digit 10) s;
          (fp, r2) = (case r1 of
                        [] \<Rightarrow> ([], r1)
                      | c # r \<Rightarrow> if c = CHR ''.''
                                 then (takeWhile (is_digit 10) r, dropWhile (is_digit 10) r)
                                 else ([], r1))
      in if ip = [] \<and> fp = [] then None
         else (case parse_exponent r2 of
                 None \<Rightarrow> None
               | Some e \<Rightarrow>
                   Some ((of_int (digits_value 10 ip)
                          + of_int (digits_value 10 fp) / 10 ^ length fp) * pow10 e)))"

definition parse_unsigned :: "string \<Rightarrow> jsnum" where
  "parse_unsigned s =
     (if s = ''Infinity'' then PosInf
      else case parse_decimal s of None \<Rightarrow> NaN | Some q \<Rightarrow> round_double q)"

definition negate :: "jsnum \<Rightarrow> jsnum" where
  "negate n = (case n of Finite q \<Rightarrow> Finite (- q) | NaN \<Rightarrow> NaN
               | PosInf \<Rightarrow> NegInf | NegInf \<Rightarrow> PosInf)"

definition parse_radix :: "nat \<Rightarrow> string \<Rightarrow> jsnum" where
  "parse_radix base ds =
     (if ds \<noteq> [] \<and> list_all (is_digit base) ds
      then round_double (of_int (digits_value base ds)) else NaN)"

definition js_Number :: "string \<Rightarrow> jsnum" where
  "js_Number s =
     (let t = trim s
      in case t of
           [] \<Rightarrow> Finite 0
         | c # r \<Rightarrow>
             if c = CHR ''0'' \<and> r \<noteq> [] \<and> hd r \<in> {CHR ''x'', CHR ''X''} then parse_radix 16 (tl r)
             else if c = CHR ''0'' \<and> r \<noteq> [] \<and> hd r \<in> {CHR ''o'', CHR ''O''} then parse_radix 8 (tl r)
             else if c = CHR ''0'' \<and> r \<noteq> [] \<and> hd r \<in> {CHR ''b'', CHR ''B''} then parse_radix 2 (tl r)
             else if c = CHR ''-'' then negate (parse_unsigned r)
             else if c = CHR ''+'' then parse_unsigned r
             else parse_unsigned t)"

section \<open>Field parsers\<close>

definition isNonEmptyString :: "jsval \<Rightarrow> bool" where
  "isNonEmptyString x = (case x of JStr s \<Rightarrow> 0 < length (trim s) | _ \<Rightarrow> False)"

text \<open>The result is a finite number or \<open>null\<close> (\<open>None\<close>).\<close>

definition parseNumberStrict :: "jsval \<Rightarrow> rat option" where
  "parseNumberStrict x =
     (case x of
        JNum (Finite q) \<Rightarrow> Some q
      | _ \<Rightarrow>
          if \<not> isNonEmptyString x then None
          else (case x of
                  JStr s \<Rightarrow> (case js_Number (trim s) of Finite n \<Rightarrow> Some n | _ \<Rightarrow> None)
                | _ \<Rightarrow> None))"

record bp_parsed =
  systolic :: "rat option"
  diastolic :: "rat option"
  valid :: bool

definition parseBloodPressure :: "jsval \<Rightarrow> bp_parsed" where
  "parseBloodPressure bp =
     (if \<not> isNonEmptyString bp then \<lparr>systolic = None, diastolic = None, valid = False\<rparr>
      else (case bp of
              JStr s \<Rightarrow>
                (let parts = split_str CHR ''/'' s
                 in if length parts \<noteq> 2
                    then \<lparr>systolic = None, diastolic = None, valid = False\<rparr>
                    else (let sys = parseNumberStrict (JStr (parts ! 0));
                              dia = parseNumberStrict (JStr (parts ! 1))
                          in \<lparr>systolic = sys, diastolic = dia,
                              valid = (sys \<noteq> None \<and> dia \<noteq> None)\<rparr>))
            | _ \<Rightarrow> \<lparr>systolic = None, diastolic = None, valid = False\<rparr>))"

section \<open>Risk scorer\<close>

text \<open>A relational operator converts \<open>null\<close> to 0 before it compares.\<close>

definition to_number :: "rat option \<Rightarrow> rat" where
  "to_number v = (case v of Some q \<Rightarrow> q | None \<Rightarrow> 0)"

text \<open>The two local variables of \<open>scoreBloodPressure\<close>, as functions of the readings.\<close>

definition sysStage :: "rat \<Rightarrow> nat" where
  "sysStage s =
     (if s < 120 then 1
      else if 120 \<le> s \<and> s \<le> 129 then 2
      else if 130 \<le> s \<and> s \<le> 139 then 3
      else if 140 \<le> s then 4
      else 0)"

definition diaStage :: "rat \<Rightarrow> nat" where
  "diaStage d =
     (if d < 80 then 1
      else if 80 \<le> d \<and> d \<le> 89 then 3
      else if 90 \<le> d then 4
      else 0)"

definition scoreBloodPressure :: "jsval \<Rightarrow> nat" where
  "scoreBloodPressure bp =
     (let r = parseBloodPressure bp
      in if \<not> valid r then 0
         else (let s = to_number (systolic r); d = to_number (diastolic r)
               in if s < 120 \<and> d < 80 then 1
                  else if 120 \<le> s \<and> s \<le> 129 \<and> d < 80 then 2
                  else (let stage = max (sysStage s) (diaStage d)
                        in if 4 \<le> stage then 4 else 3)))"

definition scoreTemperature :: "jsval \<Rightarrow> nat" where
  "scoreTemperature temp =
     (case parseNumberStrict temp of
        None \<Rightarrow> 0
      | Some t \<Rightarrow>
          if t \<le> lit (995 / 10) then 0
          else if lit (996 / 10) \<le> t \<and> t \<le> lit (1009 / 10) then 1
          else if lit 101 \<le> t then 2
          else 0)"

definition scoreAge :: "jsval \<Rightarrow> nat" where
  "scoreAge age =
     (case parseNumberStrict age of
        None \<Rightarrow> 0
      | Some a \<Rightarrow> if 65 < a then 2 else 1)"

section \<open>Records and the data-quality detector\<close>

text \<open>
  Reading a property: \<open>null\<close> and \<open>undefined\<close> have none and the read throws; an
  object gives the value stored under the key, or \<open>undefined\<close>; the other values have
  none of the properties this program reads.
\<close>

definition get_prop :: "jsval \<Rightarrow> string \<Rightarrow> error + jsval" where
  "get_prop v k =
     (case v of
        JUndefined \<Rightarrow> Inl TypeError
      | JNull \<Rightarrow> Inl TypeError
      | JObj kvs \<Rightarrow> Inr (case map_of kvs k of Some x \<Rightarrow> x | None \<Rightarrow> JUndefined)
      | _ \<Rightarrow> Inr JUndefined)"

definition bind_err :: "error + 'a \<Rightarrow> ('a \<Rightarrow> error + 'b) \<Rightarrow> error + 'b" where
  "bind_err m f = (case m of Inl e \<Rightarrow> Inl e | Inr x \<Rightarrow> f x)"

definition hasDataQualityIssue :: "jsval \<Rightarrow> error + bool" where
  "hasDataQualityIssue p =
     bind_err (get_prop p ''blood_pressure'') (\<lambda>bp.
       let bpOk = valid (parseBloodPressure bp)
       in bind_err (get_prop p ''temperature'') (\<lambda>t.
            let tOk = (parseNumberStrict t \<noteq> None)
            in bind_err (get_prop p ''age'') (\<lambda>a.
                 let aOk = (parseNumberStrict a \<noteq> None)
                 in Inr (\<not> (bpOk \<and> tOk \<and> aOk)))))"

section \<open>Aggregator\<close>

record lists =
  highRisk :: "string list"
  fever :: "string list"
  dq :: "string list"

text \<open>
  The body of the loop over the patients: the lists after the record \<open>p\<close>. Reading
  \<open>p.patient_id\<close> throws when \<open>p\<close> is \<open>null\<close> or \<open>undefined\<close>; a record without
  a usable identifier is skipped (\<open>continue\<close>).
\<close>

definition analyze_record :: "lists \<Rightarrow> jsval \<Rightarrow> error + lists" where
  "analyze_record acc p =
     bind_err (get_prop p ''patient_id'') (\<lambda>idv.
       if \<not> isNonEmptyString idv then Inr acc
       else (case idv of
               JStr pid \<Rightarrow>
                 bind_err (get_prop p ''blood_pressure'') (\<lambda>bpv.
                 bind_err (get_prop p ''temperature'') (\<lambda>tv.
                 bind_err (get_prop p ''age'') (\<lambda>av.
                   let bp = scoreBloodPressure bpv;
                       tmp = scoreTemperature tv;
                       age = scoreAge av;
                       total = bp + tmp + age;
                       acc1 = (if 4 \<le> total then acc\<lparr>highRisk := highRisk acc @ [pid]\<rparr> else acc);
                       tVal = parseNumberStrict tv;
                       acc2 = (if tVal \<noteq> None \<and> lit (996 / 10) \<le> to_number tVal
                               then acc1\<lparr>fever := fever acc1 @ [pid]\<rparr> else acc1)
                   in bind_err (hasDataQualityIssue p) (\<lambda>issue.
                        Inr (if issue then acc2\<lparr>dq := dq acc2 @ [pid]\<rparr> else acc2)))))
             | _ \<Rightarrow> Inr acc))"

fun analyze_loop :: "lists \<Rightarrow> jsval list \<Rightarrow> error + lists" where
  "analyze_loop acc [] = Inr acc"
| "analyze_loop acc (p # ps) =
     (case analyze_record acc p of Inl e \<Rightarrow> Inl e | Inr acc' \<Rightarrow> analyze_loop acc' ps)"

text \<open>
  \<open>new Set(arr)\<close> keeps the first occurrence of each element, in insertion order;
  \<open>sort()\<close> without a comparator orders strings by their code units.
\<close>

fun set_add_all :: "string list \<Rightarrow> string list \<Rightarrow> string list" where
  "set_add_all s [] = s"
| "set_add_all s (x # xs) = set_add_all (if x \<in> set s then s else s @ [x]) xs"

definition uniqSort :: "string list \<Rightarrow> string list" where
  "uniqSort arr = sort (set_add_all [] arr)"

record results =
  high_risk_patients :: "string list"
  fever_patients :: "string list"
  data_quality_issues :: "string list"

definition analyzePatients :: "jsval list \<Rightarrow> error + results" where
  "analyzePatients patients =
     (case analyze_loop \<lparr>highRisk = [], fever = [], dq = []\<rparr> patients of
        Inl e \<Rightarrow> Inl e
      | Inr acc \<Rightarrow>
          Inr \<lparr>high_risk_patients = uniqSort (highRisk acc),
               fever_patients = uniqSort (fever acc),
               data_quality_issues = uniqSort (dq acc)\<rparr>)"

section \<open>Resilient fetcher\<close>

text \<open>
  The caller's options, the request that \<open>fetch\<close> receives, and what the network
  answers. An object with string keys is an association list, in the order in which the
  keys were first assigned (header names are not array indices, which an object would
  list first); \<open>AList.update\<close> is the assignment of a key (in place when the key is
  there, at the end otherwise).
\<close>

record options =
  opt_method :: "string option"
  opt_headers :: "(string \<times> string) list option"
  opt_body :: "string option"

record request =
  url :: string
  req_method :: "string option"
  req_headers :: "(string \<times> string) list"
  req_body :: "string option"

text \<open>
  The credential: the environment variable \<open>API_KEY\<close> when it is set and not empty, the
  built-in key otherwise. It is the argument \<open>key\<close> of the functions below.
\<close>

definition API_KEY :: "string option \<Rightarrow> string" where
  "API_KEY env =
     (case env of
        None \<Rightarrow> ''ak_ae557ca6698db7f65dd458a9e7aeba13f3f464214c104a48''
      | Some k \<Rightarrow> if k = [] then ''ak_ae557ca6698db7f65dd458a9e7aeba13f3f464214c104a48'' else k)"

text \<open>\<open>{ 'x-api-key': API_KEY, ...(options.headers || {}) }\<close>\<close>

definition merge_headers :: "string \<Rightarrow> (string \<times> string) list option \<Rightarrow> (string \<times> string) list" where
  "merge_headers key h =
     foldl (\<lambda>obj (k, v). AList.update k v obj) [(''x-api-key'', key)]
       (case h of None \<Rightarrow> [] | Some kvs \<Rightarrow> kvs)"

definition make_request :: "string \<Rightarrow> string \<Rightarrow> options \<Rightarrow> request" where
  "make_request key u opts =
     \<lparr>url = u, req_method = opt_method opts,
      req_headers = merge_headers key (opt_headers opts), req_body = opt_body opts\<rparr>"

text \<open>
  A response: its status, its \<open>retry-after\<close> header (\<open>null\<close> when absent), the text of
  its body (\<open>None\<close> when reading it fails) and the result of parsing its body as JSON.
\<close>

record response =
  status :: nat
  retry_after :: "string option"
  text_body :: "string option"
  json_body :: "error + jsval"

datatype outcome = Rejected error | Responded response

definition ok :: "response \<Rightarrow> bool" where
  "ok res = (200 \<le> status res \<and> status res \<le> 299)"

text \<open>
  The effects: how many times \<open>fetch\<close> has been called, the requests it received and
  the waits of \<open>sleep\<close>, in order. The network answers the \<open>n\<close>-th call of \<open>fetch\<close>
  (from 0), given its request.
\<close>

record io =
  calls :: nat
  sent :: "request list"
  sleeps :: "jsnum list"

type_synonym network = "nat \<Rightarrow> request \<Rightarrow> outcome"

definition sleep :: "jsnum \<Rightarrow> io \<Rightarrow> io" where
  "sleep ms w = w\<lparr>sleeps := sleeps w @ [ms]\<rparr>"

definition times1000 :: "jsnum \<Rightarrow> jsnum" where
  "times1000 n = (case n of Finite q \<Rightarrow> round_double (q * 1000) | _ \<Rightarrow> n)"

definition js_max :: "jsnum \<Rightarrow> jsnum \<Rightarrow> jsnum" where
  "js_max a b =
     (if a = NaN \<or> b = NaN then NaN
      else if a = PosInf \<or> b = PosInf then PosInf
      else (case (a, b) of
              (Finite x, Finite y) \<Rightarrow> Finite (max x y)
            | (NegInf, _) \<Rightarrow> b
            | (_, _) \<Rightarrow> a))"

definition next_backoff :: "int \<Rightarrow> int" where
  "next_backoff backoff = min (backoff * 2) 5000"

text \<open>
  One pass through the \<open>try\<close> block, at attempt number \<open>attempt\<close> (already
  incremented): it ends in \<open>continue\<close>, in \<open>return data\<close>, or in an exception for the
  \<open>catch\<close> block, each with the backoff and the effects so far.
\<close>

datatype flow = Continue int io | Return jsval io | Throw error int io

definition try_block :: "network \<Rightarrow> string \<Rightarrow> string \<Rightarrow> options \<Rightarrow> nat \<Rightarrow> nat \<Rightarrow> int \<Rightarrow> io \<Rightarrow> flow" where
  "try_block net key u opts maxRetries attempt backoff w =
     (let req = make_request key u opts;
          w1 = w\<lparr>calls := calls w + 1, sent := sent w @ [req]\<rparr>
      in case net (calls w) req of
           Rejected err \<Rightarrow> Throw err backoff w1
         | Responded res \<Rightarrow>
             (let (cont1, b1, w2) =
                    (if status res = 429
                     then (let waitMs = (case retry_after res of
                                           None \<Rightarrow> Finite (of_int backoff)
                                         | Some ra \<Rightarrow> if ra \<noteq> [] then times1000 (js_Number ra)
                                                      else Finite (of_int backoff))
                           in (attempt \<le> maxRetries, next_backoff backoff,
                               sleep (js_max waitMs (Finite (of_int backoff))) w1))
                     else (False, backoff, w1))
              in if cont1 then Continue b1 w2
                 else (let (cont2, b2, w3) =
                             (if status res = 500 \<or> status res = 503
                              then (attempt \<le> maxRetries, next_backoff b1,
                                    sleep (Finite (of_int b1)) w2)
                              else (False, b1, w2))
                       in if cont2 then Continue b2 w3
                          else if \<not> ok res
                          then Throw (HttpError (status res)
                                        (take 200 (case text_body res of Some t \<Rightarrow> t | None \<Rightarrow> [])))
                                 b2 w3
                          else (case json_body res of
                                  Inl e \<Rightarrow> Throw e b2 w3
                                | Inr data \<Rightarrow> Return data w3))))"

function fetch_loop ::
  "network \<Rightarrow> string \<Rightarrow> string \<Rightarrow> options \<Rightarrow> nat \<Rightarrow> nat \<Rightarrow> int \<Rightarrow> io \<Rightarrow> (error + jsval) \<times> io" where
  "fetch_loop net key u opts maxRetries attempt backoff w =
     (case try_block net key u opts maxRetries (attempt + 1) backoff w of
        Return data w' \<Rightarrow> (Inr data, w')
      | Continue b w' \<Rightarrow> fetch_loop net key u opts maxRetries (attempt + 1) b w'
      | Throw err b w' \<Rightarrow>
          if maxRetries < attempt + 1 then (Inl err, w')
          else fetch_loop net key u opts maxRetries (attempt + 1) (next_backoff b)
                 (sleep (Finite (of_int b)) w'))"
  by pat_completeness auto
termination
  by (relation "measure (\<lambda>(net, key, u, opts, maxRetries, attempt, backoff, w). maxRetries - attempt)")
     (auto simp: try_block_def Let_def split: outcome.splits if_splits sum.splits)

definition no_options :: options where
  "no_options = \<lparr>opt_method = None, opt_headers = None, opt_body = None\<rparr>"

definition fetchWithRetry ::
  "network \<Rightarrow> string \<Rightarrow> string \<Rightarrow> options \<Rightarrow> nat \<Rightarrow> io \<Rightarrow> (error + jsval) \<times> io" where
  "fetchWithRetry net key u opts maxRetries w = fetch_loop net key u opts maxRetries 0 300 w"

section \<open>Paginator\<close>

definition BASE_URL :: string where
  "BASE_URL = ''https://assessment.ksensetech.com/api''"

definition DEFAULT_LIMIT :: nat where
  "DEFAULT_LIMIT = 20"

function show_nat :: "nat \<Rightarrow> string" where
  "show_nat n =
     (if n < 10 then [char_of (48 + n)] else show_nat (n div 10) @ [char_of (48 + n mod 10)])"
  by pat_completeness auto
termination
  by (relation "measure (\<lambda>n. n)") auto

definition patients_url :: "nat \<Rightarrow> string" where
  "patients_url page =
     BASE_URL @ ''/patients?page='' @ show_nat page @ ''&limit='' @ show_nat DEFAULT_LIMIT"

text \<open>Truthiness, optional chaining (\<open>v?.k\<close>) and \<open>a < b\<close> on numbers.\<close>

definition truthy :: "jsval \<Rightarrow> bool" where
  "truthy v =
     (case v of
        JUndefined \<Rightarrow> False
      | JNull \<Rightarrow> False
      | JBool b \<Rightarrow> b
      | JNum n \<Rightarrow> (case n of Finite q \<Rightarrow> q \<noteq> 0 | NaN \<Rightarrow> False | _ \<Rightarrow> True)
      | JStr s \<Rightarrow> s \<noteq> []
      | _ \<Rightarrow> True)"

definition opt_prop :: "jsval \<Rightarrow> string \<Rightarrow> error + jsval" where
  "opt_prop v k = (if v = JUndefined \<or> v = JNull then Inr JUndefined else get_prop v k)"

definition js_less :: "jsnum \<Rightarrow> jsnum \<Rightarrow> bool" where
  "js_less a b =
     (case (a, b) of
        (Finite x, Finite y) \<Rightarrow> x < y
      | (Finite x, PosInf) \<Rightarrow> True
      | (NegInf, Finite y) \<Rightarrow> True
      | (NegInf, PosInf) \<Rightarrow> True
      | (_, _) \<Rightarrow> False)"

text \<open>
  The variables of \<open>getAllPatients\<close>; \<open>totalPages\<close> is \<open>null\<close> (\<open>None\<close>) or a
  number.
\<close>

record pstate =
  all_recs :: "jsval list"
  page :: nat
  totalPages :: "jsnum option"

text \<open>
  The body of the loop, from the payload that \<open>fetchWithRetry\<close> returned to the test
  of \<open>hasNext\<close>: the decision and the variables after it (the page is incremented when
  the loop goes on).
\<close>

definition page_body :: "jsval \<Rightarrow> pstate \<Rightarrow> error + bool \<times> pstate" where
  "page_body payload st =
     bind_err (opt_prop payload ''data'') (\<lambda>d.
       let data = (case d of JArr xs \<Rightarrow> xs | _ \<Rightarrow> []);
           all' = all_recs st @ data
       in bind_err (opt_prop payload ''pagination'') (\<lambda>pg.
            let pag = (if truthy pg then pg else JObj [])
            in bind_err (get_prop pag ''totalPages'') (\<lambda>tp.
                 let totalPages' = (case tp of JNum n \<Rightarrow> Some n | _ \<Rightarrow> totalPages st)
                 in bind_err (get_prop pag ''hasNext'') (\<lambda>hn.
                      let hasNext =
                            (case hn of
                               JBool b \<Rightarrow> b
                             | _ \<Rightarrow>
                                 (case totalPages' of
                                    None \<Rightarrow> length data = DEFAULT_LIMIT
                                  | Some n \<Rightarrow>
                                      if truthy (JNum n)
                                      then js_less (Finite (of_int (int (page st)))) n
                                      else length data = DEFAULT_LIMIT))
                      in Inr (hasNext,
                              \<lparr>all_recs = all',
                               page = (if hasNext then page st + 1 else page st),
                               totalPages = totalPages'\<rparr>)))))"

text \<open>
  The loop of \<open>getAllPatients\<close>. Nothing bounds the number of pages, so the loop may
  run forever: \<open>None\<close> is that it does not return.
\<close>

partial_function (option) pages_loop ::
  "network \<Rightarrow> string \<Rightarrow> pstate \<Rightarrow> io \<Rightarrow> ((error + jsval list) \<times> io) option" where
  "pages_loop net key st w =
     (case fetchWithRetry net key (patients_url (page st)) no_options 8 w of
        (Inl e, w') \<Rightarrow> Some (Inl e, w')
      | (Inr payload, w') \<Rightarrow>
          (case page_body payload st of
             Inl e \<Rightarrow> Some (Inl e, w')
           | Inr (hasNext, st') \<Rightarrow>
               if \<not> hasNext then Some (Inr (all_recs st'), w')
               else pages_loop net key st' (sleep (Finite 120) w')))"

declare pages_loop.simps [code]

definition getAllPatients :: "network \<Rightarrow> string \<Rightarrow> io \<Rightarrow> ((error + jsval list) \<times> io) option" where
  "getAllPatients net key w =
     pages_loop net key \<lparr>all_recs = [], page = 1, totalPages = None\<rparr> w"

section \<open>Definitions used to state the properties\<close>

text \<open>
  The condition of the specification for a blood pressure that parses: a non-empty
  string that splits on \<open>/\<close> into exactly two parts, each strictly parseable as a finite
  number.
\<close>

definition spec_bp_parseable :: "jsval \<Rightarrow> bool" where
  "spec_bp_parseable bp =
     (case bp of
        JStr s \<Rightarrow>
          s \<noteq> [] \<and>
          (case split_str CHR ''/'' s of
             [a, b] \<Rightarrow> parseNumberStrict (JStr a) \<noteq> None \<and> parseNumberStrict (JStr b) \<noteq> None
           | _ \<Rightarrow> False)
      | _ \<Rightarrow> False)"

definition all_null :: bp_parsed where
  "all_null = \<lparr>systolic = None, diastolic = None, valid = False\<rparr>"

text \<open>The three scores of a record, as \<open>analyzePatients\<close> computes them.\<close>

definition record_scores :: "jsval \<Rightarrow> error + nat \<times> nat \<times> nat" where
  "record_scores p =
     bind_err (get_prop p ''blood_pressure'') (\<lambda>bpv.
     bind_err (get_prop p ''temperature'') (\<lambda>tv.
     bind_err (get_prop p ''age'') (\<lambda>av.
       Inr (scoreBloodPressure bpv, scoreTemperature tv, scoreAge av))))"

text \<open>A record has a usable identifier when its \<open>patient_id\<close> is a non-blank string.\<close>

definition usable_id :: "jsval \<Rightarrow> bool" where
  "usable_id p = (case get_prop p ''patient_id'' of Inr v \<Rightarrow> isNonEmptyString v | Inl e \<Rightarrow> False)"

definition nullish :: "jsval \<Rightarrow> bool" where
  "nullish v = (v = JUndefined \<or> v = JNull)"

definition append_lists :: "lists \<Rightarrow> lists \<Rightarrow> lists" where
  "append_lists a c =
     \<lparr>highRisk = highRisk a @ highRisk c, fever = fever a @ fever c, dq = dq a @ dq c\<rparr>"

definition no_lists :: lists where
  "no_lists = \<lparr>highRisk = [], fever = [], dq = []\<rparr>"

text \<open>What one record adds to the three lists.\<close>

definition contrib :: "jsval \<Rightarrow> lists" where
  "contrib p = (case analyze_record no_lists p of Inr c \<Rightarrow> c | Inl e \<Rightarrow> no_lists)"

text \<open>
  The error that an attempt with this outcome raises, if it raises one: the rejection of
  \<open>fetch\<close>, the HTTP error of a response that is not ok, or the failure to parse the
  body.
\<close>

definition attempt_error :: "outcome \<Rightarrow> error option" where
  "attempt_error out =
     (case out of
        Rejected e \<Rightarrow> Some e
      | Responded res \<Rightarrow>
          if \<not> ok res
          then Some (HttpError (status res)
                       (take 200 (case text_body res of Some t \<Rightarrow> t | None \<Rightarrow> [])))
          else (case json_body res of Inl e \<Rightarrow> Some e | Inr d \<Rightarrow> None))"

text \<open>
  What a payload carries: the entries of its pagination metadata, the explicit boolean
  flag, the total page count, and the data array (empty when absent or not an array).
\<close>

definition pagination_of :: "jsval \<Rightarrow> (string \<times> jsval) list" where
  "pagination_of payload =
     (case payload of
        JObj kvs \<Rightarrow> (case map_of kvs ''pagination'' of Some (JObj pg) \<Rightarrow> pg | _ \<Rightarrow> [])
      | _ \<Rightarrow> [])"

definition meta_hasNext :: "jsval \<Rightarrow> bool option" where
  "meta_hasNext payload =
     (case map_of (pagination_of payload) ''hasNext'' of Some (JBool b) \<Rightarrow> Some b | _ \<Rightarrow> None)"

definition meta_totalPages :: "jsval \<Rightarrow> jsnum option" where
  "meta_totalPages payload =
     (case map_of (pagination_of payload) ''totalPages'' of Some (JNum n) \<Rightarrow> Some n | _ \<Rightarrow> None)"

definition page_data :: "jsval \<Rightarrow> jsval list" where
  "page_data payload =
     (case payload of
        JObj kvs \<Rightarrow> (case map_of kvs ''data'' of Some (JArr xs) \<Rightarrow> xs | _ \<Rightarrow> [])
      | _ \<Rightarrow> [])"

text \<open>The total page count that is tracked after a page: the last number seen.\<close>

definition tracked_totalPages :: "jsval \<Rightarrow> pstate \<Rightarrow> jsnum option" where
  "tracked_totalPages payload st =
     (case meta_totalPages payload of Some n \<Rightarrow> Some n | None \<Rightarrow> totalPages st)"

text \<open>
  The continuation rule in the words of the specification: the explicit flag if there is
  one, else \<open>page < totalPages\<close> if a total page count was seen (0 included), else
  whether the page is full.
\<close>

definition spec_hasNext :: "bool option \<Rightarrow> jsnum option \<Rightarrow> nat \<Rightarrow> nat \<Rightarrow> bool" where
  "spec_hasNext flag tracked pg n =
     (case flag of
        Some b \<Rightarrow> b
      | None \<Rightarrow>
          (case tracked of
             Some t \<Rightarrow> js_less (Finite (of_int (int pg))) t
           | None \<Rightarrow> n = 20))"

text \<open>
  The rule of the code: a total page count counts as seen only when it is neither 0 nor
  \<open>NaN\<close>.
\<close>

definition code_hasNext :: "bool option \<Rightarrow> jsnum option \<Rightarrow> nat \<Rightarrow> nat \<Rightarrow> bool" where
  "code_hasNext flag tracked pg n =
     (case flag of
        Some b \<Rightarrow> b
      | None \<Rightarrow>
          (case tracked of
             Some t \<Rightarrow>
               if t \<noteq> Finite 0 \<and> t \<noteq> NaN then js_less (Finite (of_int (int pg))) t
               else n = 20
           | None \<Rightarrow> n = 20))"

text \<open>Sample records, for the evaluation at concrete inputs.\<close>

definition sample_high :: jsval where
  "sample_high =
     JObj [(''patient_id'', JStr ''DEMO002''), (''blood_pressure'', JStr ''150/95''),
           (''temperature'', JStr ''100.95''), (''age'', JNum (Finite 70))]"

definition sample_unscored :: jsval where
  "sample_unscored = JObj [(''patient_id'', JStr ''DEMO001'')]"

definition sample_ok :: jsval where
  "sample_ok =
     JObj [(''patient_id'', JStr ''DEMO003''), (''blood_pressure'', JStr ''115/75''),
           (''temperature'', JStr ''98.6''), (''age'', JNum (Finite 40))]"

definition sample_no_temp :: jsval where
  "sample_no_temp =
     JObj [(''patient_id'', JStr ''DEMO004''), (''blood_pressure'', JStr ''115/75''),
           (''temperature'', JStr ''TEMP_ERROR''), (''age'', JNum (Finite 40))]"

text \<open>Records without a usable identifier: missing, empty, blank, not a string.\<close>

definition sample_unusable :: "jsval list" where
  "sample_unusable =
     [JObj [(''temperature'', JStr ''103''), (''age'', JStr ''n/a'')],
      JObj [(''patient_id'', JStr []), (''temperature'', JStr ''103'')],
      JObj [(''patient_id'', JStr ''  ''), (''temperature'', JStr ''103'')],
      JObj [(''patient_id'', JNum (Finite 7)), (''temperature'', JStr ''103'')]]"

text \<open>Sample responses and networks, for the evaluation at concrete inputs.\<close>

definition io0 :: io where
  "io0 = \<lparr>calls = 0, sent = [], sleeps = []\<rparr>"

definition sample_payload :: jsval where
  "sample_payload = JObj [(''data'', JArr [JObj [(''patient_id'', JStr ''DEMO001'')]])]"

definition respond :: "nat \<Rightarrow> string \<Rightarrow> outcome" where
  "respond st txt =
     Responded \<lparr>status = st, retry_after = None, text_body = Some txt,
                json_body = (if 200 \<le> st \<and> st \<le> 299 then Inr sample_payload
                             else Inl (BodyError ''Unexpected token''))\<rparr>"

text \<open>A 404 for the first call of \<open>fetch\<close>, a 200 afterwards.\<close>

definition net_404_then_200 :: network where
  "net_404_then_200 n req = (if n = 0 then respond 404 ''Not Found'' else respond 200 ''{}'')"

text \<open>A 429 for every call.\<close>

definition net_always_429 :: network where
  "net_always_429 n req = respond 429 ''Too Many Requests''"

text \<open>A 200 for every call.\<close>

definition net_always_200 :: network where
  "net_always_200 n req = respond 200 ''{}''"

text \<open>
  Three pages: 20 records for the first two calls of \<open>fetch\<close>, 5 records afterwards,
  with no pagination metadata.
\<close>

definition net_three_pages :: network where
  "net_three_pages n req =
     Responded \<lparr>status = 200, retry_after = None, text_body = Some ''{}'',
                json_body = Inr (JObj [(''data'', JArr (replicate (if n < 2 then 20 else 5) sample_ok))])\<rparr>"

text \<open>The headers that the caller supplied (\<open>options.headers || {}\<close>).\<close>

definition caller_headers :: "options \<Rightarrow> (string \<times> string) list" where
  "caller_headers opts = (case opt_headers opts of None \<Rightarrow> [] | Some kvs \<Rightarrow> kvs)"

text \<open>Options whose headers carry an \<open>x-api-key\<close> of the caller's own.\<close>

definition opts_own_key :: options where
  "opts_own_key =
     \<lparr>opt_method = Some ''POST'',
      opt_headers = Some [(''Content-Type'', ''application/json''), (''x-api-key'', ''other'')],
      opt_body = Some ''{}''\<rparr>"

text \<open>The options of \<open>submitResults\<close>.\<close>

definition opts_submit :: options where
  "opts_submit =
     \<lparr>opt_method = Some ''POST'',
      opt_headers = Some [(''Content-Type'', ''application/json'')],
      opt_body = Some ''{}''\<rparr>"

text \<open>
  A full page of 20 records whose metadata reports 0 pages in total and no flag, and the
  variables of the paginator at the first page.
\<close>

definition payload_zero_total :: jsval where
  "payload_zero_total =
     JObj [(''data'', JArr (replicate 20 sample_ok)),
           (''pagination'', JObj [(''totalPages'', JNum (Finite 0))])]"

definition first_page :: pstate where
  "first_page = \<lparr>all_recs = [], page = 1, totalPages = None\<rparr>"

section \<open>Properties of the field parsers and the scorer\<close>

text \<open>The literals of \<open>scoreTemperature\<close>, also with their fractions in lowest terms.\<close>

lemma lit_values:
  "lit (995 / 10) = 199 / 2"
  "lit (199 / 2) = 199 / 2"
  "lit (996 / 10) = 3504363460047667 / 35184372088832"
  "lit (498 / 5) = 3504363460047667 / 35184372088832"
  "lit (1009 / 10) = 3550103143763149 / 35184372088832"
  "lit 101 = 101"
  by code_simp+

lemma scoreBloodPressure_invalid:
  "\<not> valid (parseBloodPressure bp) \<Longrightarrow> scoreBloodPressure bp = 0"
  by (simp add: scoreBloodPressure_def)

lemma scoreBloodPressure_combined:
  assumes "valid (parseBloodPressure bp)"
    and "systolic (parseBloodPressure bp) = Some s"
    and "diastolic (parseBloodPressure bp) = Some d"
    and "\<not> (s < 120 \<and> d < 80)"
    and "\<not> (120 \<le> s \<and> s \<le> 129 \<and> d < 80)"
  shows "scoreBloodPressure bp = (if 4 \<le> max (sysStage s) (diaStage d) then 4 else 3)"
  using assms by (simp add: scoreBloodPressure_def to_number_def Let_def)

lemma scoreBloodPressure_examples:
  "scoreBloodPressure (JStr ''115/75'') = 1"
  "scoreBloodPressure (JStr ''125/75'') = 2"
  "scoreBloodPressure (JStr ''135/85'') = 3"
  "scoreBloodPressure (JStr ''150/95'') = 4"
  by code_simp+

lemma dropWhile_all: "(\<forall>x\<in>set (dropWhile P xs). P x) \<longleftrightarrow> (\<forall>x\<in>set xs. P x)"
  by (induction xs) auto

lemma trim_Nil_iff: "trim s = [] \<longleftrightarrow> (\<forall>c\<in>set s. is_ws c)"
proof -
  have "trim s = [] \<longleftrightarrow> dropWhile is_ws (rev (dropWhile is_ws s)) = []"
    by (simp add: trim_def)
  also have "\<dots> \<longleftrightarrow> (\<forall>x\<in>set (dropWhile is_ws s). is_ws x)"
    by (metis dropWhile_eq_Nil_conv set_rev)
  finally show ?thesis
    by (simp only: dropWhile_all)
qed

lemma split_on_two_parts: "split_on c cur s = [a, b] \<Longrightarrow> c \<in> set s"
  by (induction s arbitrary: cur) (auto split: if_splits)

lemma isNonEmptyString_two_parts:
  assumes "split_str CHR ''/'' s = [a, b]"
  shows "isNonEmptyString (JStr s)"
proof -
  have "CHR ''/'' \<in> set s"
    using assms split_on_two_parts by (simp add: split_str_def) 
  moreover have "\<not> is_ws CHR ''/''"
    by (simp add: is_ws_def)
  ultimately have "trim s \<noteq> []"
    using trim_Nil_iff by blast
  then show ?thesis
    by (simp add: isNonEmptyString_def)
qed

lemma length_two: "length xs = 2 \<longleftrightarrow> (\<exists>a b. xs = [a, b])"
  by (cases xs; cases "tl xs") auto

lemma parseBloodPressure_two_parts:
  assumes "split_str CHR ''/'' s = [a, b]"
  shows "parseBloodPressure (JStr s) =
    \<lparr>systolic = parseNumberStrict (JStr a), diastolic = parseNumberStrict (JStr b),
     valid = (parseNumberStrict (JStr a) \<noteq> None \<and> parseNumberStrict (JStr b) \<noteq> None)\<rparr>"
  using assms isNonEmptyString_two_parts [OF assms]
  by (simp add: parseBloodPressure_def Let_def)

lemma parseBloodPressure_other_shape:
  assumes "\<not> isNonEmptyString bp \<or> (\<exists>s. bp = JStr s \<and> length (split_str CHR ''/'' s) \<noteq> 2)"
  shows "parseBloodPressure bp = all_null"
  using assms by (auto simp: parseBloodPressure_def all_null_def Let_def)

lemma parseBloodPressure_valid_iff: "valid (parseBloodPressure bp) = spec_bp_parseable bp"
proof (cases bp)
  case (JStr s)
  show ?thesis
  proof (cases "\<exists>a b. split_str CHR ''/'' s = [a, b]")
    case True
    then obtain a b where ab: "split_str CHR ''/'' s = [a, b]"
      by blast
    have "s \<noteq> []"
      using ab by (auto simp: split_str_def)
    then show ?thesis
      using JStr ab parseBloodPressure_two_parts [OF ab]
      by (simp add: spec_bp_parseable_def)
  next
    case False
    then have len: "length (split_str CHR ''/'' s) \<noteq> 2"
      by (simp add: length_two)
    have "parseBloodPressure bp = all_null"
      using JStr len parseBloodPressure_other_shape [of bp] by simp
    moreover have "\<not> spec_bp_parseable bp"
      using JStr False by (auto simp: spec_bp_parseable_def split: list.splits)
    ultimately show ?thesis
      by (simp add: all_null_def)
  qed
qed (simp_all add: parseBloodPressure_def spec_bp_parseable_def isNonEmptyString_def)

text \<open>
  C3, as stated, fails: for the string \<open>120/abc\<close>, whose second part is not a number, the
  result keeps the systolic reading 120 and is not all-null.
\<close>

theorem parseBloodPressure_all_null_counterexample:
  "\<not> spec_bp_parseable (JStr ''120/abc'') \<and>
   parseBloodPressure (JStr ''120/abc'') = \<lparr>systolic = Some 120, diastolic = None, valid = False\<rparr> \<and>
   parseBloodPressure (JStr ''120/abc'') \<noteq> all_null"
  by code_simp

text \<open>
  C3, amended: \<open>parseBloodPressure\<close> returns \<open>valid = true\<close> exactly for a non-empty
  string that splits on \<open>/\<close> into exactly two parts, each strictly parseable as a finite
  number; for a string of exactly two parts, systolic and diastolic are the results of
  parsing the first and the second part (the exact number, or \<open>null\<close> for a part that
  does not parse); for an input that is not a non-blank string or does not split into
  exactly two parts, the result is all-null with \<open>valid = false\<close>.
\<close>

theorem parseBloodPressure_shape:
  "valid (parseBloodPressure bp) = spec_bp_parseable bp \<and>
   (split_str CHR ''/'' s = [a, b] \<longrightarrow>
      systolic (parseBloodPressure (JStr s)) = parseNumberStrict (JStr a) \<and>
      diastolic (parseBloodPressure (JStr s)) = parseNumberStrict (JStr b)) \<and>
   (\<not> isNonEmptyString other \<or>
    (\<exists>s'. other = JStr s' \<and> length (split_str CHR ''/'' s') \<noteq> 2) \<longrightarrow>
      parseBloodPressure other = all_null)"
  using parseBloodPressure_valid_iff [of bp] parseBloodPressure_two_parts [of s a b]
    parseBloodPressure_other_shape [of other]
  by simp

theorem parseBloodPressure_shape_witness:
  "valid (parseBloodPressure (JStr ''120/80'')) \<and>
   spec_bp_parseable (JStr ''120/80'') \<and>
   split_str CHR ''/'' ''120/abc'' = [''120'', ''abc''] \<and>
   systolic (parseBloodPressure (JStr ''120/abc'')) = Some 120 \<and>
   diastolic (parseBloodPressure (JStr ''120/abc'')) = None \<and>
   length (split_str CHR ''/'' ''1/2/3'') \<noteq> 2 \<and>
   parseBloodPressure (JStr ''1/2/3'') = all_null"
proof -
  have h1: "spec_bp_parseable (JStr ''120/80'')"
    by code_simp
  have h2: "split_str CHR ''/'' ''120/abc'' = [''120'', ''abc'']"
    by code_simp
  have h3: "length (split_str CHR ''/'' ''1/2/3'') \<noteq> 2"
    by code_simp
  have h4: "parseNumberStrict (JStr ''120'') = Some 120 \<and> parseNumberStrict (JStr ''abc'') = None"
    by code_simp
  show ?thesis
    using h1 h2 h3 h4
      parseBloodPressure_shape [of "JStr ''120/80''" "''120/abc''" "''120''" "''abc''" "JStr ''1/2/3''"]
    by simp
qed

lemma stage_thresholds: "4 \<le> max (sysStage s) (diaStage d) \<longleftrightarrow> 140 \<le> s \<or> 90 \<le> d"
  by (simp add: sysStage_def diaStage_def)

lemma scoreBloodPressure_normal:
  assumes "valid (parseBloodPressure bp)"
    and "systolic (parseBloodPressure bp) = Some s"
    and "diastolic (parseBloodPressure bp) = Some d"
    and "s < 120 \<and> d < 80"
  shows "scoreBloodPressure bp = 1"
  using assms by (simp add: scoreBloodPressure_def to_number_def Let_def)

lemma scoreBloodPressure_elevated:
  assumes "valid (parseBloodPressure bp)"
    and "systolic (parseBloodPressure bp) = Some s"
    and "diastolic (parseBloodPressure bp) = Some d"
    and "120 \<le> s \<and> s \<le> 129 \<and> d < 80"
  shows "scoreBloodPressure bp = 2"
  using assms by (simp add: scoreBloodPressure_def to_number_def Let_def)

text \<open>
  C5: \<open>scoreBloodPressure\<close> gives 1 for 115/75, 2 for 125/75, 3 for 135/85 and 4 for
  150/95; a blood pressure that does not parse scores 0; a parsed pair that is Normal
  (systolic below 120 and diastolic below 80) scores 1 and one that is Elevated (systolic
  from 120 to 129 and diastolic below 80) scores 2; and a parsed pair that is neither
  scores 4 when the larger of the two stages is at least 4 and 3 otherwise, hence 3 or 4.
  The stages are those of the thresholds: systolic below 120 is stage 1, from 120 to 129
  stage 2, from 130 to 139 stage 3, from 140 stage 4, and 0 in the gaps; diastolic below
  80 is stage 1, from 80 to 89 stage 3, from 90 stage 4, and 0 in the gap. So the larger
  stage is at least 4, and the score of such a pair is 4, exactly when the systolic
  reading is at least 140 or the diastolic reading is at least 90.
\<close>

theorem scoreBloodPressure_table:
  "scoreBloodPressure (JStr ''115/75'') = 1 \<and>
   scoreBloodPressure (JStr ''125/75'') = 2 \<and>
   scoreBloodPressure (JStr ''135/85'') = 3 \<and>
   scoreBloodPressure (JStr ''150/95'') = 4 \<and>
   (\<not> valid (parseBloodPressure bad) \<longrightarrow> scoreBloodPressure bad = 0) \<and>
   (valid (parseBloodPressure bp) \<and>
    systolic (parseBloodPressure bp) = Some s \<and>
    diastolic (parseBloodPressure bp) = Some d \<longrightarrow>
      (s < 120 \<and> d < 80 \<longrightarrow> scoreBloodPressure bp = 1) \<and>
      (120 \<le> s \<and> s \<le> 129 \<and> d < 80 \<longrightarrow> scoreBloodPressure bp = 2) \<and>
      (\<not> (s < 120 \<and> d < 80) \<and> \<not> (120 \<le> s \<and> s \<le> 129 \<and> d < 80) \<longrightarrow>
         scoreBloodPressure bp = (if 4 \<le> max (sysStage s) (diaStage d) then 4 else 3) \<and>
         scoreBloodPressure bp = (if 140 \<le> s \<or> 90 \<le> d then 4 else 3) \<and>
         scoreBloodPressure bp \<in> {3, 4})) \<and>
   sysStage s =
     (if s < 120 then 1 else if s \<le> 129 then 2
      else if 130 \<le> s \<and> s \<le> 139 then 3 else if 140 \<le> s then 4 else 0) \<and>
   diaStage d = (if d < 80 then 1 else if d \<le> 89 then 3 else if 90 \<le> d then 4 else 0) \<and>
   (4 \<le> max (sysStage s) (diaStage d) \<longleftrightarrow> 140 \<le> s \<or> 90 \<le> d)"
proof -
  have stages: "sysStage s =
     (if s < 120 then 1 else if s \<le> 129 then 2
      else if 130 \<le> s \<and> s \<le> 139 then 3 else if 140 \<le> s then 4 else 0)"
    "diaStage d = (if d < 80 then 1 else if d \<le> 89 then 3 else if 90 \<le> d then 4 else 0)"
    by (simp_all add: sysStage_def diaStage_def)
  have other: "scoreBloodPressure bp = (if 4 \<le> max (sysStage s) (diaStage d) then 4 else 3) \<and>
      scoreBloodPressure bp = (if 140 \<le> s \<or> 90 \<le> d then 4 else 3) \<and>
      scoreBloodPressure bp \<in> {3, 4}"
    if v: "valid (parseBloodPressure bp)" "systolic (parseBloodPressure bp) = Some s"
      "diastolic (parseBloodPressure bp) = Some d"
      and n: "\<not> (s < 120 \<and> d < 80)" "\<not> (120 \<le> s \<and> s \<le> 129 \<and> d < 80)"
  proof -
    have "scoreBloodPressure bp = (if 4 \<le> max (sysStage s) (diaStage d) then 4 else 3)"
      using v n by (rule scoreBloodPressure_combined)
    then show ?thesis
      by (simp add: stage_thresholds)
  qed
  show ?thesis
    using scoreBloodPressure_examples scoreBloodPressure_invalid [of bad]
      scoreBloodPressure_normal [of bp s d] scoreBloodPressure_elevated [of bp s d]
      other stages stage_thresholds [of s d]
    by blast
qed

theorem scoreBloodPressure_table_witness:
  "\<not> valid (parseBloodPressure (JStr ''N/A'')) \<and>
   scoreBloodPressure (JStr ''N/A'') = 0 \<and>
   valid (parseBloodPressure (JStr ''150/70'')) \<and>
   systolic (parseBloodPressure (JStr ''150/70'')) = Some 150 \<and>
   diastolic (parseBloodPressure (JStr ''150/70'')) = Some 70 \<and>
   \<not> ((150::rat) < 120 \<and> (70::rat) < 80) \<and>
   \<not> ((120::rat) \<le> 150 \<and> (150::rat) \<le> 129 \<and> (70::rat) < 80) \<and>
   scoreBloodPressure (JStr ''150/70'') = 4 \<and>
   sysStage 150 = 4 \<and> diaStage 70 = 1"
proof -
  have h1: "\<not> valid (parseBloodPressure (JStr ''N/A''))"
    by code_simp
  have h2: "valid (parseBloodPressure (JStr ''150/70'')) \<and>
    systolic (parseBloodPressure (JStr ''150/70'')) = Some 150 \<and>
    diastolic (parseBloodPressure (JStr ''150/70'')) = Some 70"
    by code_simp
  have h3: "\<not> ((150::rat) < 120 \<and> (70::rat) < 80) \<and>
    \<not> ((120::rat) \<le> 150 \<and> (150::rat) \<le> 129 \<and> (70::rat) < 80)"
    by simp
  show ?thesis
    using h1 h2 h3 scoreBloodPressure_table [of "JStr ''N/A''" "JStr ''150/70''" 150 70]
    by simp
qed

section \<open>Properties of the data-quality detector and the aggregator\<close>

lemma get_prop_nullish: "nullish p \<Longrightarrow> get_prop p k = Inl TypeError"
  by (auto simp: nullish_def get_prop_def)

lemma get_prop_record: "\<not> nullish p \<Longrightarrow> \<exists>v. get_prop p k = Inr v"
  by (cases p) (simp_all add: nullish_def get_prop_def)

lemma hasDataQualityIssue_fields:
  assumes "get_prop p ''blood_pressure'' = Inr bp"
    and "get_prop p ''temperature'' = Inr t"
    and "get_prop p ''age'' = Inr a"
  shows "hasDataQualityIssue p =
    Inr (\<not> valid (parseBloodPressure bp) \<or> parseNumberStrict t = None \<or> parseNumberStrict a = None)"
  using assms by (auto simp: hasDataQualityIssue_def bind_err_def)

lemma analyze_record_nullish: "nullish p \<Longrightarrow> analyze_record acc p = Inl TypeError"
  by (simp add: analyze_record_def bind_err_def get_prop_nullish)

lemma analyze_record_skip:
  assumes "\<not> nullish p" and "\<not> usable_id p"
  shows "analyze_record acc p = Inr acc"
proof -
  obtain v where v: "get_prop p ''patient_id'' = Inr v"
    using assms(1) get_prop_record by blast
  then have "\<not> isNonEmptyString v"
    using assms(2) by (simp add: usable_id_def)
  then show ?thesis
    using v by (simp add: analyze_record_def bind_err_def)
qed

lemma usable_id_string:
  assumes "usable_id p"
  shows "\<exists>pid. get_prop p ''patient_id'' = Inr (JStr pid) \<and> isNonEmptyString (JStr pid)"
  using assms
  by (auto simp: usable_id_def isNonEmptyString_def split: sum.splits jsval.splits)

lemma analyze_record_usable:
  assumes "get_prop p ''patient_id'' = Inr (JStr pid)" and "isNonEmptyString (JStr pid)"
    and "get_prop p ''blood_pressure'' = Inr bpv"
    and "get_prop p ''temperature'' = Inr tv"
    and "get_prop p ''age'' = Inr av"
  shows "analyze_record acc p =
    Inr (append_lists acc
      \<lparr>highRisk = (if 4 \<le> scoreBloodPressure bpv + scoreTemperature tv + scoreAge av then [pid] else []),
       fever = (if parseNumberStrict tv \<noteq> None \<and> lit (996 / 10) \<le> to_number (parseNumberStrict tv)
                then [pid] else []),
       dq = (if \<not> valid (parseBloodPressure bpv) \<or> parseNumberStrict tv = None \<or>
                parseNumberStrict av = None then [pid] else [])\<rparr>)"
  using assms hasDataQualityIssue_fields [OF assms(3-5)]
  by (simp add: analyze_record_def bind_err_def append_lists_def Let_def)

lemma append_lists_no_lists [simp]: "append_lists no_lists c = c" "append_lists c no_lists = c"
  by (simp_all add: append_lists_def no_lists_def)

lemma append_lists_assoc: "append_lists (append_lists a b) c = append_lists a (append_lists b c)"
  by (simp add: append_lists_def)

lemma analyze_record_contrib:
  assumes "\<not> nullish p"
  shows "analyze_record acc p = Inr (append_lists acc (contrib p))"
proof (cases "usable_id p")
  case False
  then show ?thesis
    using assms by (simp add: analyze_record_skip contrib_def)
next
  case True
  then obtain pid where pid: "get_prop p ''patient_id'' = Inr (JStr pid)" "isNonEmptyString (JStr pid)"
    using usable_id_string by blast
  obtain bpv tv av where f: "get_prop p ''blood_pressure'' = Inr bpv"
    "get_prop p ''temperature'' = Inr tv" "get_prop p ''age'' = Inr av"
    using assms get_prop_record by meson
  show ?thesis
    by (simp add: contrib_def analyze_record_usable [OF pid f])
qed

lemma analyze_loop_records:
  assumes "\<forall>p\<in>set ps. \<not> nullish p"
  shows "analyze_loop acc ps = Inr (foldl append_lists acc (map contrib ps))"
  using assms by (induction ps arbitrary: acc) (simp_all add: analyze_record_contrib)

lemma analyze_loop_nullish:
  assumes "\<exists>p\<in>set ps. nullish p"
  shows "analyze_loop acc ps = Inl TypeError"
  using assms
proof (induction ps arbitrary: acc)
  case Nil
  then show ?case by simp
next
  case (Cons p ps)
  show ?case
  proof (cases "nullish p")
    case True
    then show ?thesis by (simp add: analyze_record_nullish)
  next
    case False
    then have "\<exists>q\<in>set ps. nullish q"
      using Cons.prems by auto
    then show ?thesis
      using False Cons.IH by (simp add: analyze_record_contrib)
  qed
qed

lemma foldl_append_lists:
  "highRisk (foldl append_lists acc cs) = highRisk acc @ concat (map highRisk cs)"
  "fever (foldl append_lists acc cs) = fever acc @ concat (map fever cs)"
  "dq (foldl append_lists acc cs) = dq acc @ concat (map dq cs)"
  by (induction cs arbitrary: acc) (simp_all add: append_lists_def)

lemma set_add_all_props:
  "distinct s \<Longrightarrow> distinct (set_add_all s xs) \<and> set (set_add_all s xs) = set s \<union> set xs"
  by (induction xs arbitrary: s) auto

lemma uniqSort_eq: "uniqSort xs = sorted_list_of_set (set xs)"
proof -
  have d: "distinct (set_add_all [] xs)" and s: "set (set_add_all [] xs) = set xs"
    using set_add_all_props [of "[]" xs] by simp_all
  have "sorted_list_of_set (set (set_add_all [] xs)) = sort (remdups (set_add_all [] xs))"
    by (rule sorted_list_of_set_sort_remdups)
  then show ?thesis
    using d s by (simp add: uniqSort_def distinct_remdups_id)
qed

lemma analyzePatients_records:
  assumes "\<forall>p\<in>set ps. \<not> nullish p"
  shows "analyzePatients ps =
    Inr \<lparr>high_risk_patients = sorted_list_of_set (\<Union>p\<in>set ps. set (highRisk (contrib p))),
         fever_patients = sorted_list_of_set (\<Union>p\<in>set ps. set (fever (contrib p))),
         data_quality_issues = sorted_list_of_set (\<Union>p\<in>set ps. set (dq (contrib p)))\<rparr>"
proof -
  have "analyze_loop \<lparr>highRisk = [], fever = [], dq = []\<rparr> ps =
      Inr (foldl append_lists no_lists (map contrib ps))"
    using analyze_loop_records [OF assms, of no_lists] by (simp add: no_lists_def)
  moreover have "highRisk no_lists = []" "fever no_lists = []" "dq no_lists = []"
    by (simp_all add: no_lists_def)
  ultimately show ?thesis
    by (simp add: analyzePatients_def foldl_append_lists uniqSort_eq)
qed

lemma analyzePatients_nullish:
  assumes "\<exists>p\<in>set ps. nullish p"
  shows "analyzePatients ps = Inl TypeError"
  using analyze_loop_nullish [OF assms] by (simp add: analyzePatients_def)

lemma analyzePatients_set_eq:
  assumes "set ps = set qs"
  shows "analyzePatients ps = analyzePatients qs"
proof (cases "\<exists>p\<in>set ps. nullish p")
  case True
  then have "\<exists>p\<in>set qs. nullish p"
    using assms by simp
  then show ?thesis
    using True by (simp add: analyzePatients_nullish)
next
  case False
  then have a: "\<forall>p\<in>set ps. \<not> nullish p" and b: "\<forall>p\<in>set qs. \<not> nullish p"
    using assms by simp_all
  show ?thesis
    by (simp add: analyzePatients_records [OF a] analyzePatients_records [OF b] assms)
qed

lemma contrib_unusable:
  assumes "\<not> nullish p" and "\<not> usable_id p"
  shows "contrib p = no_lists"
  using assms by (simp add: contrib_def analyze_record_skip)

lemma contrib_usable:
  assumes "get_prop p ''patient_id'' = Inr (JStr pid)" and "isNonEmptyString (JStr pid)"
    and "get_prop p ''blood_pressure'' = Inr bpv"
    and "get_prop p ''temperature'' = Inr tv"
    and "get_prop p ''age'' = Inr av"
  shows "contrib p =
      \<lparr>highRisk = (if 4 \<le> scoreBloodPressure bpv + scoreTemperature tv + scoreAge av then [pid] else []),
       fever = (if parseNumberStrict tv \<noteq> None \<and> lit (996 / 10) \<le> to_number (parseNumberStrict tv)
                then [pid] else []),
       dq = (if \<not> valid (parseBloodPressure bpv) \<or> parseNumberStrict tv = None \<or>
                parseNumberStrict av = None then [pid] else [])\<rparr>"
  by (simp add: contrib_def analyze_record_usable [OF assms])

lemma contrib_members:
  assumes "\<not> nullish p"
    and "x \<in> set (highRisk (contrib p)) \<union> set (fever (contrib p)) \<union> set (dq (contrib p))"
  shows "get_prop p ''patient_id'' = Inr (JStr x) \<and> isNonEmptyString (JStr x)"
proof (cases "usable_id p")
  case False
  then show ?thesis
    using assms by (simp add: contrib_unusable no_lists_def)
next
  case True
  then obtain pid where pid: "get_prop p ''patient_id'' = Inr (JStr pid)" "isNonEmptyString (JStr pid)"
    using usable_id_string by blast
  obtain bpv tv av where f: "get_prop p ''blood_pressure'' = Inr bpv"
    "get_prop p ''temperature'' = Inr tv" "get_prop p ''age'' = Inr av"
    using assms(1) get_prop_record by meson
  have "x = pid"
    using assms(2) by (auto simp: contrib_usable [OF pid f] split: if_splits)
  then show ?thesis
    using pid by simp
qed

lemma analyzePatients_Inr_records:
  assumes "analyzePatients ps = Inr r"
  shows "\<forall>p\<in>set ps. \<not> nullish p"
  using assms analyzePatients_nullish [of ps] by auto

lemma analyzePatients_members:
  assumes "analyzePatients ps = Inr r"
    and "x \<in> set (high_risk_patients r) \<union> set (fever_patients r) \<union> set (data_quality_issues r)"
  shows "\<exists>q\<in>set ps. get_prop q ''patient_id'' = Inr (JStr x) \<and> isNonEmptyString (JStr x)"
proof -
  have rec: "\<forall>p\<in>set ps. \<not> nullish p"
    using assms(1) by (rule analyzePatients_Inr_records)
  have fin: "finite (\<Union>p\<in>set ps. set (f (contrib p)))" for f :: "lists \<Rightarrow> string list"
    by simp
  from assms analyzePatients_records [OF rec]
  have "\<exists>q\<in>set ps. x \<in> set (highRisk (contrib q)) \<union> set (fever (contrib q)) \<union> set (dq (contrib q))"
    by (auto simp del: set_concat)
  then show ?thesis
    using rec contrib_members by blast
qed

lemma analyzePatients_filter:
  assumes "\<forall>q\<in>set ps. \<not> nullish q"
  shows "analyzePatients (filter usable_id ps) = analyzePatients ps"
proof -
  have f: "\<forall>q\<in>set (filter usable_id ps). \<not> nullish q"
    using assms by simp
  have "(\<Union>p\<in>set (filter usable_id ps). set (g (contrib p))) = (\<Union>p\<in>set ps. set (g (contrib p)))"
    if g: "g = highRisk \<or> g = fever \<or> g = dq" for g
    using g assms contrib_unusable by (fastforce simp: no_lists_def)
  then show ?thesis
    by (simp add: analyzePatients_records [OF assms] analyzePatients_records [OF f]
        del: set_filter)
qed

text \<open>
  C8: the data-quality flag of a record is true exactly when the blood pressure fails
  \<open>parseBloodPressure\<close>, or the temperature fails \<open>parseNumberStrict\<close>, or the
  age fails \<open>parseNumberStrict\<close>; every record has a flag; and the flag does not
  follow from the scores: a record that scores 0 on every axis is flagged, and of two
  records with the same three scores one is flagged and the other is not.
\<close>

theorem hasDataQualityIssue_iff:
  "(get_prop p ''blood_pressure'' = Inr bp \<and> get_prop p ''temperature'' = Inr t \<and>
    get_prop p ''age'' = Inr a \<longrightarrow>
      hasDataQualityIssue p =
        Inr (\<not> valid (parseBloodPressure bp) \<or> parseNumberStrict t = None \<or>
             parseNumberStrict a = None)) \<and>
   (\<not> nullish q \<longrightarrow> (\<exists>flag. hasDataQualityIssue q = Inr flag)) \<and>
   record_scores sample_unscored = Inr (0, 0, 0) \<and>
   hasDataQualityIssue sample_unscored = Inr True \<and>
   record_scores sample_ok = record_scores sample_no_temp \<and>
   hasDataQualityIssue sample_ok = Inr False \<and>
   hasDataQualityIssue sample_no_temp = Inr True"
proof -
  have total: "\<exists>flag. hasDataQualityIssue q = Inr flag" if rec: "\<not> nullish q"
  proof -
    obtain bpv tv av where "get_prop q ''blood_pressure'' = Inr bpv"
      "get_prop q ''temperature'' = Inr tv" "get_prop q ''age'' = Inr av"
      using rec get_prop_record by meson
    then show ?thesis
      using hasDataQualityIssue_fields by blast
  qed
  have s1: "record_scores sample_unscored = Inr (0, 0, 0)"
    by code_simp
  have s2: "hasDataQualityIssue sample_unscored = Inr True"
    by code_simp
  have s3: "record_scores sample_ok = record_scores sample_no_temp"
    by code_simp
  have s4: "hasDataQualityIssue sample_ok = Inr False"
    by code_simp
  have s5: "hasDataQualityIssue sample_no_temp = Inr True"
    by code_simp
  show ?thesis
    using hasDataQualityIssue_fields [of p bp t a] total s1 s2 s3 s4 s5 by blast
qed

theorem hasDataQualityIssue_iff_witness:
  "get_prop sample_no_temp ''blood_pressure'' = Inr (JStr ''115/75'') \<and>
   get_prop sample_no_temp ''temperature'' = Inr (JStr ''TEMP_ERROR'') \<and>
   get_prop sample_no_temp ''age'' = Inr (JNum (Finite 40)) \<and>
   valid (parseBloodPressure (JStr ''115/75'')) \<and>
   parseNumberStrict (JStr ''TEMP_ERROR'') = None \<and>
   parseNumberStrict (JNum (Finite 40)) = Some 40 \<and>
   hasDataQualityIssue sample_no_temp = Inr True \<and>
   \<not> nullish sample_ok \<and>
   (\<exists>flag. hasDataQualityIssue sample_ok = Inr flag)"
proof -
  have h1: "get_prop sample_no_temp ''blood_pressure'' = Inr (JStr ''115/75'') \<and>
    get_prop sample_no_temp ''temperature'' = Inr (JStr ''TEMP_ERROR'') \<and>
    get_prop sample_no_temp ''age'' = Inr (JNum (Finite 40))"
    by code_simp
  have h2: "valid (parseBloodPressure (JStr ''115/75'')) \<and>
    parseNumberStrict (JStr ''TEMP_ERROR'') = None \<and>
    parseNumberStrict (JNum (Finite 40)) = Some 40"
    by code_simp
  have h3: "\<not> nullish sample_ok"
    by code_simp
  show ?thesis
    using h1 h2 h3
      hasDataQualityIssue_iff [of sample_no_temp "JStr ''115/75''" "JStr ''TEMP_ERROR''"
        "JNum (Finite 40)" sample_ok]
    by blast
qed

text \<open>
  C9: a record whose \<open>patient_id\<close> is not a non-blank string leaves the three lists
  as they are; removing such records from the input does not change the output; and
  every identifier in an output list is the non-blank string \<open>patient_id\<close> of some
  input record.
\<close>

theorem unusable_identifier_excluded:
  "(\<not> nullish p \<and> \<not> usable_id p \<longrightarrow> analyze_record acc p = Inr acc) \<and>
   ((\<forall>q\<in>set ps. \<not> nullish q) \<longrightarrow> analyzePatients (filter usable_id ps) = analyzePatients ps) \<and>
   (analyzePatients ps = Inr r \<and>
    x \<in> set (high_risk_patients r) \<union> set (fever_patients r) \<union> set (data_quality_issues r) \<longrightarrow>
      (\<exists>q\<in>set ps. get_prop q ''patient_id'' = Inr (JStr x) \<and> isNonEmptyString (JStr x)))"
  using analyze_record_skip [of p acc] analyzePatients_filter [of ps]
    analyzePatients_members [of ps r x]
  by blast

theorem unusable_identifier_excluded_witness:
  "filter nullish (sample_unusable @ [sample_high]) = [] \<and>
   filter usable_id (sample_unusable @ [sample_high]) = [sample_high] \<and>
   \<not> nullish (hd sample_unusable) \<and> \<not> usable_id (hd sample_unusable) \<and>
   analyze_record no_lists (hd sample_unusable) = Inr no_lists \<and>
   analyzePatients [sample_high] = analyzePatients (sample_unusable @ [sample_high]) \<and>
   analyzePatients (sample_unusable @ [sample_high]) =
     Inr \<lparr>high_risk_patients = [''DEMO002''], fever_patients = [''DEMO002''],
          data_quality_issues = []\<rparr> \<and>
   get_prop sample_high ''patient_id'' = Inr (JStr ''DEMO002'') \<and>
   isNonEmptyString (JStr ''DEMO002'')"
proof -
  have h0: "filter nullish (sample_unusable @ [sample_high]) = []"
    by code_simp
  then have h1: "\<forall>q\<in>set (sample_unusable @ [sample_high]). \<not> nullish q"
    by (simp only: filter_empty_conv)
  have h2: "filter usable_id (sample_unusable @ [sample_high]) = [sample_high]"
    by code_simp
  have h3: "analyzePatients (sample_unusable @ [sample_high]) =
     Inr \<lparr>high_risk_patients = [''DEMO002''], fever_patients = [''DEMO002''],
          data_quality_issues = []\<rparr>"
    by code_simp
  have h4: "\<not> nullish (hd sample_unusable) \<and> \<not> usable_id (hd sample_unusable)"
    by code_simp
  have h5: "get_prop sample_high ''patient_id'' = Inr (JStr ''DEMO002'') \<and>
    isNonEmptyString (JStr ''DEMO002'')"
    by code_simp
  show ?thesis
    using h0 h1 h2 h3 h4 h5
      unusable_identifier_excluded [of "hd sample_unusable" no_lists
        "sample_unusable @ [sample_high]"
        "\<lparr>high_risk_patients = [''DEMO002''], fever_patients = [''DEMO002''],
          data_quality_issues = []\<rparr>" "''DEMO002''"]
    by simp
qed

lemma scoreTemperature_gap:
  assumes "parseNumberStrict tv = Some t" and "lit (1009 / 10) < t" and "t < 101"
  shows "scoreTemperature tv = 0"
  using assms by (simp add: scoreTemperature_def lit_values)

lemma fever_in_gap:
  assumes "\<forall>q\<in>set ps. \<not> nullish q" and "p \<in> set ps"
    and "get_prop p ''patient_id'' = Inr (JStr pid)" and "isNonEmptyString (JStr pid)"
    and "get_prop p ''temperature'' = Inr tv"
    and "parseNumberStrict tv = Some t" and "lit (1009 / 10) < t"
  shows "\<exists>r. analyzePatients ps = Inr r \<and> pid \<in> set (fever_patients r)"
proof -
  obtain bpv av where f: "get_prop p ''blood_pressure'' = Inr bpv" "get_prop p ''age'' = Inr av"
    using assms(1,2) get_prop_record by meson
  have "lit (996 / 10) \<le> t"
    using assms(7) by (simp add: lit_values)
  then have "pid \<in> set (fever (contrib p))"
    using assms(6)
    by (simp add: contrib_usable [OF assms(3,4) f(1) assms(5) f(2)] to_number_def)
  then have "pid \<in> (\<Union>q\<in>set ps. set (fever (contrib q)))"
    using assms(2) by blast
  then show ?thesis
    by (simp add: analyzePatients_records [OF assms(1)] del: UN_iff)
qed

text \<open>
  C10: a temperature that parses to a number above the literal 100.9 and below 101.0
  scores 0, and a record with a usable identifier and such a temperature is still in
  \<open>fever_patients\<close>.
\<close>

theorem temperature_gap_still_fever:
  "(parseNumberStrict tv = Some t \<and> lit (1009 / 10) < t \<and> t < 101 \<longrightarrow> scoreTemperature tv = 0) \<and>
   ((\<forall>q\<in>set ps. \<not> nullish q) \<and> p \<in> set ps \<and>
    get_prop p ''patient_id'' = Inr (JStr pid) \<and> isNonEmptyString (JStr pid) \<and>
    get_prop p ''temperature'' = Inr tv \<and>
    parseNumberStrict tv = Some t \<and> lit (1009 / 10) < t \<and> t < 101 \<longrightarrow>
      (\<exists>r. analyzePatients ps = Inr r \<and> pid \<in> set (fever_patients r)))"
  using scoreTemperature_gap [of tv t] fever_in_gap [of ps p pid tv t]
  by blast

theorem temperature_gap_still_fever_witness:
  "parseNumberStrict (JStr ''100.95'') = Some (lit (10095 / 100)) \<and>
   lit (1009 / 10) < lit (10095 / 100) \<and> lit (10095 / 100) < 101 \<and>
   scoreTemperature (JStr ''100.95'') = 0 \<and>
   \<not> nullish sample_ok \<and> \<not> nullish sample_high \<and>
   get_prop sample_high ''patient_id'' = Inr (JStr ''DEMO002'') \<and>
   isNonEmptyString (JStr ''DEMO002'') \<and>
   get_prop sample_high ''temperature'' = Inr (JStr ''100.95'') \<and>
   (\<exists>r. analyzePatients [sample_ok, sample_high] = Inr r \<and> ''DEMO002'' \<in> set (fever_patients r))"
proof -
  have h1: "parseNumberStrict (JStr ''100.95'') = Some (lit (10095 / 100)) \<and>
    lit (1009 / 10) < lit (10095 / 100) \<and> lit (10095 / 100) < 101"
    by code_simp
  have h2: "\<not> nullish sample_ok \<and> \<not> nullish sample_high"
    by code_simp
  then have h2': "\<forall>q\<in>set [sample_ok, sample_high]. \<not> nullish q"
    by simp
  have h3: "get_prop sample_high ''patient_id'' = Inr (JStr ''DEMO002'') \<and>
    isNonEmptyString (JStr ''DEMO002'') \<and>
    get_prop sample_high ''temperature'' = Inr (JStr ''100.95'')"
    by code_simp
  have h4: "sample_high \<in> set [sample_ok, sample_high]"
    by simp
  show ?thesis
    using h1 h2 h2' h3 h4
      temperature_gap_still_fever [of "JStr ''100.95''" "lit (10095 / 100)"
        "[sample_ok, sample_high]" sample_high "''DEMO002''"]
    by blast
qed

text \<open>
  C6: each of the three output lists is sorted in ascending order (strings compare
  lexicographically by code unit) and holds no identifier twice; two inputs with the same
  set of records (so any reordering or duplication) give the same output; and the
  aggregator returns for every list of records.
\<close>

theorem analyzePatients_deterministic:
  "(analyzePatients ps = Inr r \<longrightarrow>
      sorted (high_risk_patients r) \<and> distinct (high_risk_patients r) \<and>
      sorted (fever_patients r) \<and> distinct (fever_patients r) \<and>
      sorted (data_quality_issues r) \<and> distinct (data_quality_issues r)) \<and>
   (set ps = set qs \<longrightarrow> analyzePatients ps = analyzePatients qs) \<and>
   ((\<forall>p\<in>set ps. \<not> nullish p) \<longrightarrow> (\<exists>r'. analyzePatients ps = Inr r'))"
proof -
  have "sorted (uniqSort xs) \<and> distinct (uniqSort xs)" for xs
    by (simp add: uniqSort_eq)
  then have "analyzePatients ps = Inr r \<Longrightarrow>
      sorted (high_risk_patients r) \<and> distinct (high_risk_patients r) \<and>
      sorted (fever_patients r) \<and> distinct (fever_patients r) \<and>
      sorted (data_quality_issues r) \<and> distinct (data_quality_issues r)"
    by (auto simp: analyzePatients_def split: sum.splits)
  moreover have "(\<forall>p\<in>set ps. \<not> nullish p) \<Longrightarrow> \<exists>r'. analyzePatients ps = Inr r'"
    using analyzePatients_records by blast
  ultimately show ?thesis
    using analyzePatients_set_eq [of ps qs] by blast
qed

theorem analyzePatients_deterministic_witness:
  "analyzePatients [sample_no_temp, sample_high, sample_unscored, sample_high] =
     Inr \<lparr>high_risk_patients = [''DEMO002''], fever_patients = [''DEMO002''],
          data_quality_issues = [''DEMO001'', ''DEMO004'']\<rparr> \<and>
   sorted [''DEMO001'', ''DEMO004''] \<and> distinct [''DEMO001'', ''DEMO004''] \<and>
   set [sample_no_temp, sample_high, sample_unscored, sample_high] =
     set [sample_high, sample_unscored, sample_no_temp] \<and>
   analyzePatients [sample_no_temp, sample_high, sample_unscored, sample_high] =
     analyzePatients [sample_high, sample_unscored, sample_no_temp] \<and>
   \<not> nullish sample_no_temp \<and> \<not> nullish sample_high \<and> \<not> nullish sample_unscored"
proof -
  have h1: "analyzePatients [sample_no_temp, sample_high, sample_unscored, sample_high] =
     Inr \<lparr>high_risk_patients = [''DEMO002''], fever_patients = [''DEMO002''],
          data_quality_issues = [''DEMO001'', ''DEMO004'']\<rparr>"
    by code_simp
  have h2: "set [sample_no_temp, sample_high, sample_unscored, sample_high] =
     set [sample_high, sample_unscored, sample_no_temp]"
    by auto
  have h3: "\<not> nullish sample_no_temp \<and> \<not> nullish sample_high \<and> \<not> nullish sample_unscored"
    by code_simp
  show ?thesis
    using h1 h2 h3
      analyzePatients_deterministic [of "[sample_no_temp, sample_high, sample_unscored, sample_high]"
        "\<lparr>high_risk_patients = [''DEMO002''], fever_patients = [''DEMO002''],
          data_quality_issues = [''DEMO001'', ''DEMO004'']\<rparr>"
        "[sample_high, sample_unscored, sample_no_temp]"]
    by simp
qed

section \<open>Properties of the resilient fetcher\<close>

declare fetch_loop.simps [simp del]

lemma try_block_Continue:
  assumes "try_block net key u opts m a b w = Continue b' w'"
  shows "calls w' = Suc (calls w) \<and> a \<le> m \<and>
    sent w' = sent w @ [make_request key u opts]"
  using assms
  by (auto simp: try_block_def Let_def sleep_def split: outcome.splits if_splits sum.splits)

lemma try_block_Return:
  assumes "try_block net key u opts m a b w = Return d w'"
  shows "calls w' = Suc (calls w) \<and> sent w' = sent w @ [make_request key u opts] \<and>
    attempt_error (net (calls w) (make_request key u opts)) = None"
  using assms
  by (auto simp: try_block_def Let_def sleep_def attempt_error_def
      split: outcome.splits if_splits sum.splits)

lemma try_block_Throw:
  assumes "try_block net key u opts m a b w = Throw e b' w'"
  shows "calls w' = Suc (calls w) \<and> sent w' = sent w @ [make_request key u opts] \<and>
    attempt_error (net (calls w) (make_request key u opts)) = Some e"
  using assms
  by (auto simp: try_block_def Let_def sleep_def attempt_error_def ok_def
      split: outcome.splits if_splits sum.splits)

lemma sleep_keeps [simp]: "calls (sleep ms w) = calls w" "sent (sleep ms w) = sent w"
  by (simp_all add: sleep_def)

lemma fetch_loop_attempts:
  assumes "fetch_loop net key u opts m a b w = (r, w')" and "a \<le> m"
  shows "calls w < calls w' \<and> calls w' \<le> calls w + (Suc m - a) \<and>
    sent w' = sent w @ replicate (calls w' - calls w) (make_request key u opts) \<and>
    (\<forall>e. r = Inl e \<longleftrightarrow>
       calls w' = calls w + (Suc m - a) \<and>
       attempt_error (net (calls w' - 1) (make_request key u opts)) = Some e)"
  using assms
proof (induction net key u opts m a b w arbitrary: r w' rule: fetch_loop.induct)
  case (1 net key u opts m a b w)
  show ?case
  proof (cases "try_block net key u opts m (a + 1) b w")
    case (Return d w1)
    then have res: "r = Inr d" "w' = w1"
      using "1.prems"(1) by (simp_all add: fetch_loop.simps)
    show ?thesis
      using try_block_Return [OF Return] "1.prems"(2) res by auto
  next
    case (Continue b1 w1)
    have c: "calls w1 = Suc (calls w)" "a + 1 \<le> m" "sent w1 = sent w @ [make_request key u opts]"
      using try_block_Continue [OF Continue] by auto
    have rec: "fetch_loop net key u opts m (a + 1) b1 w1 = (r, w')"
      using "1.prems"(1) Continue by (simp add: fetch_loop.simps)
    have ih: "calls w1 < calls w' \<and> calls w' \<le> calls w1 + (Suc m - (a + 1)) \<and>
      sent w' = sent w1 @ replicate (calls w' - calls w1) (make_request key u opts) \<and>
      (\<forall>e. r = Inl e \<longleftrightarrow>
         calls w' = calls w1 + (Suc m - (a + 1)) \<and>
         attempt_error (net (calls w' - 1) (make_request key u opts)) = Some e)"
      using "1.IH"(1) [OF Continue rec c(2)] .
    have rep: "[make_request key u opts] @ replicate (calls w' - calls w1) (make_request key u opts)
      = replicate (calls w' - calls w) (make_request key u opts)"
      using ih c(1) by (metis Suc_diff_le Suc_eq_plus1 append_Cons append_Nil less_or_eq_imp_le
          replicate_Suc diff_Suc_Suc less_imp_le_nat Suc_leI)
    show ?thesis
      using ih c rep by (auto simp: )
  next
    case (Throw err b1 w1)
    have t: "calls w1 = Suc (calls w)" "sent w1 = sent w @ [make_request key u opts]"
      "attempt_error (net (calls w) (make_request key u opts)) = Some err"
      using try_block_Throw [OF Throw] by auto
    show ?thesis
    proof (cases "m < a + 1")
      case True
      then have res: "r = Inl err" "w' = w1"
        using "1.prems"(1) Throw by (simp_all add: fetch_loop.simps)
      have "Suc m - a = 1"
        using True "1.prems"(2) by simp
      then show ?thesis
        using res t by auto
    next
      case False
      then have le: "a + 1 \<le> m"
        by simp
      have rec: "fetch_loop net key u opts m (a + 1) (next_backoff b1)
          (sleep (Finite (of_int b1)) w1) = (r, w')"
        using "1.prems"(1) Throw False by (simp add: fetch_loop.simps)
      have ih: "calls w1 < calls w' \<and> calls w' \<le> calls w1 + (Suc m - (a + 1)) \<and>
        sent w' = sent w1 @ replicate (calls w' - calls w1) (make_request key u opts) \<and>
        (\<forall>e. r = Inl e \<longleftrightarrow>
           calls w' = calls w1 + (Suc m - (a + 1)) \<and>
           attempt_error (net (calls w' - 1) (make_request key u opts)) = Some e)"
        using "1.IH"(2) [OF Throw False rec le] by simp
      have rep: "[make_request key u opts] @ replicate (calls w' - calls w1) (make_request key u opts)
        = replicate (calls w' - calls w) (make_request key u opts)"
        using ih t(1) by (metis Suc_diff_le Suc_eq_plus1 append_Cons append_Nil less_or_eq_imp_le
            replicate_Suc diff_Suc_Suc less_imp_le_nat Suc_leI)
      show ?thesis
        using ih t le rep by auto
    qed
  qed
qed

text \<open>
  C7: with the default of 8 retries, a call of \<open>fetchWithRetry\<close> returns after at least
  one and at most 9 calls of \<open>fetch\<close>, whatever the network answers; and it ends with an
  error exactly when the ninth attempt was made and raised that error, which is then the
  error handed to the caller.
\<close>

theorem fetchWithRetry_bounded:
  "fetchWithRetry net key u opts 8 w = (r, w') \<longrightarrow>
     calls w < calls w' \<and> calls w' \<le> calls w + 9 \<and>
     (r = Inl e \<longleftrightarrow>
        calls w' = calls w + 9 \<and>
        attempt_error (net (calls w + 8) (make_request key u opts)) = Some e)"
proof
  assume "fetchWithRetry net key u opts 8 w = (r, w')"
  then have "fetch_loop net key u opts 8 0 300 w = (r, w')"
    by (simp add: fetchWithRetry_def)
  from fetch_loop_attempts [OF this]
  have a: "calls w < calls w'" "calls w' \<le> calls w + 9"
    and b: "r = Inl e \<longleftrightarrow>
      calls w' = calls w + 9 \<and>
      attempt_error (net (calls w' - 1) (make_request key u opts)) = Some e"
    by simp_all
  have "calls w' - 1 = calls w + 8" if "calls w' = calls w + 9"
    using that by simp
  then show "calls w < calls w' \<and> calls w' \<le> calls w + 9 \<and>
     (r = Inl e \<longleftrightarrow>
        calls w' = calls w + 9 \<and>
        attempt_error (net (calls w + 8) (make_request key u opts)) = Some e)"
    using a b by metis
qed

theorem fetchWithRetry_bounded_witness:
  "fetchWithRetry net_always_429 ''key'' (patients_url 1) no_options 8 io0 =
     (Inl (HttpError 429 ''Too Many Requests''),
      snd (fetchWithRetry net_always_429 ''key'' (patients_url 1) no_options 8 io0)) \<and>
   calls io0 = 0 \<and>
   calls (snd (fetchWithRetry net_always_429 ''key'' (patients_url 1) no_options 8 io0)) = 9 \<and>
   attempt_error (net_always_429 8 (make_request ''key'' (patients_url 1) no_options)) =
     Some (HttpError 429 ''Too Many Requests'')"
proof -
  have h1: "fetchWithRetry net_always_429 ''key'' (patients_url 1) no_options 8 io0 =
     (Inl (HttpError 429 ''Too Many Requests''),
      snd (fetchWithRetry net_always_429 ''key'' (patients_url 1) no_options 8 io0))"
    by code_simp
  have h2: "calls io0 = 0"
    by (simp add: io0_def)
  show ?thesis
    using h1 h2
      fetchWithRetry_bounded [of net_always_429 "''key''" "patients_url 1" no_options io0
        "Inl (HttpError 429 ''Too Many Requests'')"
        "snd (fetchWithRetry net_always_429 ''key'' (patients_url 1) no_options 8 io0)"
        "HttpError 429 ''Too Many Requests''"]
    by simp
qed

text \<open>
  C1 fails on the code. The error for a 404 is thrown inside the \<open>try\<close> block, so the
  \<open>catch\<close> block of the same loop takes it: with a 404 for the first request and a 200
  for the second, \<open>fetchWithRetry\<close> waits 300 ms, sends the request again and returns
  the data of the second response.
\<close>

theorem fetchWithRetry_404_retried:
  "fst (fetchWithRetry net_404_then_200 ''key'' (patients_url 1) no_options 8 io0) =
     Inr sample_payload \<and>
   calls (snd (fetchWithRetry net_404_then_200 ''key'' (patients_url 1) no_options 8 io0)) = 2 \<and>
   sleeps (snd (fetchWithRetry net_404_then_200 ''key'' (patients_url 1) no_options 8 io0)) =
     [Finite 300]"
  by code_simp

lemma foldl_update_map_of:
  "map_of (foldl (\<lambda>obj (k, v). AList.update k v obj) init kvs) = map_of init ++ map_of (rev kvs)"
proof (induction kvs arbitrary: init)
  case Nil
  then show ?case by simp
next
  case (Cons kv kvs)
  obtain k v where kv: "kv = (k, v)"
    by (cases kv)
  have "map_of (AList.update k v init) ++ map_of (rev kvs)
      = map_of init ++ (map_of [(k, v)] ++ map_of (rev kvs))"
    by (simp add: update_conv')
  then show ?case
    using Cons.IH [of "AList.update k v init"] kv by simp
qed

lemma merge_headers_map_of:
  "map_of (merge_headers key h) =
     [''x-api-key'' \<mapsto> key] ++ map_of (rev (case h of None \<Rightarrow> [] | Some kvs \<Rightarrow> kvs))"
  by (simp add: merge_headers_def foldl_update_map_of)

lemma request_headers:
  "map_of (req_headers (make_request key u opts)) =
     [''x-api-key'' \<mapsto> key] ++ map_of (rev (caller_headers opts))"
  by (simp add: make_request_def merge_headers_map_of caller_headers_def)

lemma request_has_key:
  "\<exists>v. map_of (req_headers (make_request key u opts)) ''x-api-key'' = Some v"
  by (simp add: request_headers map_add_def split: option.splits)

lemma request_key_kept:
  assumes "''x-api-key'' \<notin> fst ` set (caller_headers opts)"
  shows "map_of (req_headers (make_request key u opts)) ''x-api-key'' = Some key"
proof -
  have "map_of (rev (caller_headers opts)) ''x-api-key'' = None"
    using assms by (simp add: map_of_eq_None_iff)
  then show ?thesis
    by (simp add: request_headers map_add_def)
qed

lemma request_caller_header:
  assumes "distinct (map fst (caller_headers opts))" and "(k, v) \<in> set (caller_headers opts)"
  shows "map_of (req_headers (make_request key u opts)) k = Some v"
proof -
  have "distinct (map fst (rev (caller_headers opts)))"
    using assms(1) by (simp add: rev_map [symmetric])
  moreover have "(k, v) \<in> set (rev (caller_headers opts))"
    using assms(2) by simp
  ultimately have "map_of (rev (caller_headers opts)) k = Some v"
    by (rule map_of_is_SomeI)
  then show ?thesis
    by (simp add: request_headers map_add_def)
qed

text \<open>
  C2, as stated, fails: when the caller's headers have an \<open>x-api-key\<close> of their own, the
  request goes out with the caller's value in place of the API key.
\<close>

theorem credential_replaced_counterexample:
  "sent (snd (fetchWithRetry net_always_200 (API_KEY None) (patients_url 1) opts_own_key 8 io0)) =
     [\<lparr>url = patients_url 1, req_method = Some ''POST'',
       req_headers = [(''x-api-key'', ''other''), (''Content-Type'', ''application/json'')],
       req_body = Some ''{}''\<rparr>] \<and>
   map_of (req_headers (make_request (API_KEY None) (patients_url 1) opts_own_key)) ''x-api-key'' =
     Some ''other'' \<and>
   API_KEY None \<noteq> ''other''"
  by code_simp

text \<open>
  C2, amended: every call of \<open>fetchWithRetry\<close> sends at least one request; every
  request it sends has an \<open>x-api-key\<close> header, whose value is the API key whenever the
  caller's headers have no \<open>x-api-key\<close> of their own; and every header of the caller is
  sent with the caller's value.
\<close>

theorem credential_header_sent:
  "fetchWithRetry net key u opts m w = (r, w') \<longrightarrow>
     drop (length (sent w)) (sent w') \<noteq> [] \<and>
     (\<forall>req\<in>set (drop (length (sent w)) (sent w')).
        (\<exists>c. map_of (req_headers req) ''x-api-key'' = Some c) \<and>
        (''x-api-key'' \<notin> fst ` set (caller_headers opts) \<longrightarrow>
           map_of (req_headers req) ''x-api-key'' = Some key) \<and>
        (distinct (map fst (caller_headers opts)) \<and> (k, v) \<in> set (caller_headers opts) \<longrightarrow>
           map_of (req_headers req) k = Some v))"
proof
  assume "fetchWithRetry net key u opts m w = (r, w')"
  then have "fetch_loop net key u opts m 0 300 w = (r, w')"
    by (simp add: fetchWithRetry_def)
  from fetch_loop_attempts [OF this]
  have n: "calls w < calls w'"
    and s: "sent w' = sent w @ replicate (calls w' - calls w) (make_request key u opts)"
    by simp_all
  have d: "drop (length (sent w)) (sent w') = replicate (calls w' - calls w) (make_request key u opts)"
    using s by (metis append_eq_conv_conj)
  have "drop (length (sent w)) (sent w') \<noteq> []"
    using d n by simp
  moreover have "req = make_request key u opts" if "req \<in> set (drop (length (sent w)) (sent w'))" for req
    using that d by simp
  ultimately show "drop (length (sent w)) (sent w') \<noteq> [] \<and>
     (\<forall>req\<in>set (drop (length (sent w)) (sent w')).
        (\<exists>c. map_of (req_headers req) ''x-api-key'' = Some c) \<and>
        (''x-api-key'' \<notin> fst ` set (caller_headers opts) \<longrightarrow>
           map_of (req_headers req) ''x-api-key'' = Some key) \<and>
        (distinct (map fst (caller_headers opts)) \<and> (k, v) \<in> set (caller_headers opts) \<longrightarrow>
           map_of (req_headers req) k = Some v))"
    using request_has_key [of key u opts] request_key_kept [of opts key u]
      request_caller_header [of opts k v key u]
    by blast
qed

theorem credential_header_sent_witness:
  "fetchWithRetry net_404_then_200 (API_KEY None) (patients_url 1) opts_submit 8 io0 =
     (Inr sample_payload,
      snd (fetchWithRetry net_404_then_200 (API_KEY None) (patients_url 1) opts_submit 8 io0)) \<and>
   drop (length (sent io0))
     (sent (snd (fetchWithRetry net_404_then_200 (API_KEY None) (patients_url 1) opts_submit 8 io0))) =
     [make_request (API_KEY None) (patients_url 1) opts_submit,
      make_request (API_KEY None) (patients_url 1) opts_submit] \<and>
   ''x-api-key'' \<notin> fst ` set (caller_headers opts_submit) \<and>
   distinct (map fst (caller_headers opts_submit)) \<and>
   (''Content-Type'', ''application/json'') \<in> set (caller_headers opts_submit) \<and>
   map_of (req_headers (make_request (API_KEY None) (patients_url 1) opts_submit)) ''x-api-key'' =
     Some (API_KEY None) \<and>
   map_of (req_headers (make_request (API_KEY None) (patients_url 1) opts_submit)) ''Content-Type'' =
     Some ''application/json''"
proof -
  have h1: "fetchWithRetry net_404_then_200 (API_KEY None) (patients_url 1) opts_submit 8 io0 =
     (Inr sample_payload,
      snd (fetchWithRetry net_404_then_200 (API_KEY None) (patients_url 1) opts_submit 8 io0))"
    by code_simp
  have h2: "drop (length (sent io0))
     (sent (snd (fetchWithRetry net_404_then_200 (API_KEY None) (patients_url 1) opts_submit 8 io0))) =
     [make_request (API_KEY None) (patients_url 1) opts_submit,
      make_request (API_KEY None) (patients_url 1) opts_submit]"
    by code_simp
  have h3: "''x-api-key'' \<notin> fst ` set (caller_headers opts_submit) \<and>
    distinct (map fst (caller_headers opts_submit)) \<and>
    (''Content-Type'', ''application/json'') \<in> set (caller_headers opts_submit)"
    by code_simp
  show ?thesis
    using h1 h2 h3
      credential_header_sent [of net_404_then_200 "API_KEY None" "patients_url 1" opts_submit 8 io0
        "Inr sample_payload"
        "snd (fetchWithRetry net_404_then_200 (API_KEY None) (patients_url 1) opts_submit 8 io0)"
        "''Content-Type''" "''application/json''"]
    by simp
qed

section \<open>Properties of the paginator\<close>

lemma opt_prop_data:
  "opt_prop payload ''data'' = Inr d \<Longrightarrow> (case d of JArr xs \<Rightarrow> xs | _ \<Rightarrow> []) = page_data payload"
  by (cases payload)
     (auto simp: opt_prop_def get_prop_def page_data_def split: option.splits jsval.splits)

lemma opt_prop_total: "\<exists>v. opt_prop payload k = Inr v"
  by (cases payload) (simp_all add: opt_prop_def get_prop_def)

lemma pagination_entry:
  assumes "opt_prop payload ''pagination'' = Inr pg"
  shows "get_prop (if truthy pg then pg else JObj []) k =
    Inr (case map_of (pagination_of payload) k of Some x \<Rightarrow> x | None \<Rightarrow> JUndefined)"
proof (cases payload)
  case (JObj kvs)
  then have pg: "pg = (case map_of kvs ''pagination'' of Some x \<Rightarrow> x | None \<Rightarrow> JUndefined)"
    using assms by (simp add: opt_prop_def get_prop_def)
  show ?thesis
  proof (cases "map_of kvs ''pagination''")
    case None
    then show ?thesis
      using JObj pg by (simp add: truthy_def get_prop_def pagination_of_def)
  next
    case (Some x)
    then show ?thesis
      using JObj pg by (cases x) (simp_all add: truthy_def get_prop_def pagination_of_def)
  qed
qed (use assms in \<open>auto simp: opt_prop_def get_prop_def truthy_def pagination_of_def\<close>)

lemma totalPages_update:
  "(case (case map_of (pagination_of payload) ''totalPages'' of Some x \<Rightarrow> x | None \<Rightarrow> JUndefined) of
      JNum n \<Rightarrow> Some n | _ \<Rightarrow> totalPages st) = tracked_totalPages payload st"
  by (simp add: tracked_totalPages_def meta_totalPages_def split: option.splits jsval.splits)

lemma truthy_number: "truthy (JNum n) \<longleftrightarrow> n \<noteq> Finite 0 \<and> n \<noteq> NaN"
  by (cases n) (simp_all add: truthy_def)

lemma hasNext_decision:
  "(case (case map_of (pagination_of payload) ''hasNext'' of Some x \<Rightarrow> x | None \<Rightarrow> JUndefined) of
      JBool b \<Rightarrow> b
    | _ \<Rightarrow> (case tracked of
              None \<Rightarrow> n = DEFAULT_LIMIT
            | Some t \<Rightarrow> if truthy (JNum t) then js_less (Finite (of_int (int pg))) t
                        else n = DEFAULT_LIMIT))
   = code_hasNext (meta_hasNext payload) tracked pg n"
  by (simp add: code_hasNext_def meta_hasNext_def truthy_number DEFAULT_LIMIT_def
      split: option.splits jsval.splits)

lemma page_body_eq:
  "page_body payload st =
     Inr (code_hasNext (meta_hasNext payload) (tracked_totalPages payload st) (page st)
            (length (page_data payload)),
          \<lparr>all_recs = all_recs st @ page_data payload,
           page = (if code_hasNext (meta_hasNext payload) (tracked_totalPages payload st) (page st)
                        (length (page_data payload))
                   then page st + 1 else page st),
           totalPages = tracked_totalPages payload st\<rparr>)"
proof -
  obtain d where d: "opt_prop payload ''data'' = Inr d"
    using opt_prop_total by blast
  obtain pg where pg: "opt_prop payload ''pagination'' = Inr pg"
    using opt_prop_total by blast
  show ?thesis
    unfolding page_body_def Let_def
    by (simp add: bind_err_def d pg opt_prop_data [OF d] pagination_entry [OF pg]
        totalPages_update hasNext_decision)
qed

text \<open>
  C4, as stated, fails: for a full page whose metadata reports 0 pages in total and no
  flag, the rule of the specification stops (1 < 0 is false), and the paginator goes on,
  because a total of 0 is falsy and the decision falls to the length of the page.
\<close>

theorem hasNext_zero_total_counterexample:
  "page_body payload_zero_total first_page =
     Inr (True, \<lparr>all_recs = replicate 20 sample_ok, page = 2, totalPages = Some (Finite 0)\<rparr>) \<and>
   \<not> spec_hasNext (meta_hasNext payload_zero_total)
       (tracked_totalPages payload_zero_total first_page)
       (page first_page) (length (page_data payload_zero_total))"
  by code_simp

text \<open>
  C4, amended: the decision after a page is the explicit boolean flag of the pagination
  metadata if there is one; else, if the tracked total page count (the last number seen,
  on this page or an earlier one) is neither 0 nor \<open>NaN\<close>, whether \<open>page < totalPages\<close>;
  else whether the data array of the page has length 20.
\<close>

theorem hasNext_priority:
  "(\<exists>decision. page_body payload st = Inr decision) \<and>
   (page_body payload st = Inr (hasNext, st') \<longrightarrow>
      hasNext = code_hasNext (meta_hasNext payload) (totalPages st') (page st)
                  (length (page_data payload)) \<and>
      totalPages st' = tracked_totalPages payload st \<and>
      all_recs st' = all_recs st @ page_data payload \<and>
      page st' = (if hasNext then page st + 1 else page st))"
  by (auto simp: page_body_eq)

theorem hasNext_priority_witness:
  "page_body payload_zero_total first_page =
     Inr (True, \<lparr>all_recs = replicate 20 sample_ok, page = 2, totalPages = Some (Finite 0)\<rparr>) \<and>
   code_hasNext (meta_hasNext payload_zero_total)
     (totalPages \<lparr>all_recs = replicate 20 sample_ok, page = 2, totalPages = Some (Finite 0)\<rparr>)
     (page first_page) (length (page_data payload_zero_total)) \<and>
   \<not> spec_hasNext (meta_hasNext payload_zero_total)
     (totalPages \<lparr>all_recs = replicate 20 sample_ok, page = 2, totalPages = Some (Finite 0)\<rparr>)
     (page first_page) (length (page_data payload_zero_total))"
proof -
  have h1: "page_body payload_zero_total first_page =
     Inr (True, \<lparr>all_recs = replicate 20 sample_ok, page = 2, totalPages = Some (Finite 0)\<rparr>)"
    by code_simp
  have h2: "\<not> spec_hasNext (meta_hasNext payload_zero_total)
     (totalPages \<lparr>all_recs = replicate 20 sample_ok, page = 2, totalPages = Some (Finite 0)\<rparr>)
     (page first_page) (length (page_data payload_zero_total))"
    by code_simp
  show ?thesis
    using h1 h2
      hasNext_priority [of payload_zero_total first_page True
        "\<lparr>all_recs = replicate 20 sample_ok, page = 2, totalPages = Some (Finite 0)\<rparr>"]
    by blast
qed

text \<open>
  The loop at work: when the third page is the first one with fewer than 20 records and
  no page carries metadata, the paginator stops after the third page, with the 45 records
  and a pacing wait of 120 ms after each of the first two pages.
\<close>

lemma getAllPatients_three_pages:
  "getAllPatients net_three_pages (API_KEY None) io0 =
     Some (Inr (replicate 45 sample_ok),
           \<lparr>calls = 3,
            sent = [make_request (API_KEY None) (patients_url 1) no_options,
                    make_request (API_KEY None) (patients_url 2) no_options,
                    make_request (API_KEY None) (patients_url 3) no_options],
            sleeps = [Finite 120, Finite 120]\<rparr>)"
  by code_simp

end
